theory Spec2Isabelle
  imports Main "HOL-Library.Word" "HOL-Library.Finite_Map"
begin

unbundle bit_operations_syntax

section \<open>Constants and data of claude\_monitor.c\<close>

type_synonym u16 = "16 word"
type_synonym u32 = "32 word"
type_synonym u64 = "64 word"

definition MAX_COMM_LEN :: nat where "MAX_COMM_LEN = 16"
definition MAX_PATH_LEN :: nat where "MAX_PATH_LEN = 256"
definition MAX_HTTP_METHOD_LEN :: nat where "MAX_HTTP_METHOD_LEN = 8"
definition MAX_HTTP_URI_LEN :: nat where "MAX_HTTP_URI_LEN = 128"
definition HTTP_HEADER_SIZE :: nat where "HTTP_HEADER_SIZE = 512"
definition CLAUDE_COMM :: string where "CLAUDE_COMM = ''claude''"
definition AF_INET :: u16 where "AF_INET = 2"

text \<open>The terminating byte of a C string, and the blank the parsers look for.\<close>

definition NUL :: char where "NUL = CHR 0x00"
definition SPACE :: char where "SPACE = CHR 0x20"

datatype event_type = EVENT_EXEC | EVENT_CONNECT | EVENT_EXIT | EVENT_HTTP_REQUEST

fun event_code :: "event_type \<Rightarrow> u32" where
  "event_code EVENT_EXEC = 1"
| "event_code EVENT_CONNECT = 2"
| "event_code EVENT_EXIT = 3"
| "event_code EVENT_HTTP_REQUEST = 4"

datatype perf_counter =
  COUNTER_EVENTS_PROCESSED | COUNTER_EVENTS_DROPPED | COUNTER_EXECVE_CALLS
| COUNTER_CONNECT_CALLS | COUNTER_HTTP_REQUESTS

text \<open>
  \<open>struct claude_event\<close>. The character arrays are lists of their full size
  (16, 256, 8 and 128 bytes); \<open>exit_code\<close> is the 32 bits of the signed field.
\<close>

record claude_event =
  ev_timestamp :: u64
  ev_pid :: u32
  ev_ppid :: u32
  ev_uid :: u32
  ev_event_type :: u32
  ev_target_addr :: u32
  ev_target_port :: u16
  ev_exit_code :: u32
  ev_comm :: "char list"
  ev_path :: "char list"
  ev_http_method :: "char list"
  ev_http_uri :: "char list"
  ev_content_length :: u32
  ev_socket_fd :: u32

text \<open>The record after \<open>__builtin_memset(event, 0, sizeof(*event))\<close>.\<close>

definition zero_event :: claude_event where
  "zero_event =
     \<lparr>ev_timestamp = 0, ev_pid = 0, ev_ppid = 0, ev_uid = 0, ev_event_type = 0,
      ev_target_addr = 0, ev_target_port = 0, ev_exit_code = 0,
      ev_comm = replicate MAX_COMM_LEN NUL, ev_path = replicate MAX_PATH_LEN NUL,
      ev_http_method = replicate MAX_HTTP_METHOD_LEN NUL,
      ev_http_uri = replicate MAX_HTTP_URI_LEN NUL,
      ev_content_length = 0, ev_socket_fd = 0\<rparr>"

record socket_info =
  si_pid :: u32
  si_target_addr :: u32
  si_target_port :: u16
  si_connect_time :: u64

text \<open>
  The maps of the program: the ring buffer \<open>events\<close> as the list of submitted
  records in submission order, the hash maps \<open>claude_pids\<close> (1024 entries) and
  \<open>socket_connections\<close> (2048 entries) as finite maps, and the counter array.
\<close>

record bpf_state =
  events :: "claude_event list"
  claude_pids :: "(u32, u64) fmap"
  socket_connections :: "(u32, socket_info) fmap"
  perf_counters :: "perf_counter \<Rightarrow> u64"

definition claude_pids_max_entries :: nat where "claude_pids_max_entries = 1024"
definition socket_connections_max_entries :: nat where "socket_connections_max_entries = 2048"

section \<open>The kernel helpers\<close>

text \<open>
  What the helpers return during one activation of a handler. \<open>current_task\<close> is
  \<open>None\<close> for a null task pointer; \<open>current_comm\<close> is \<open>None\<close> when
  \<open>bpf_get_current_comm\<close> returns non-zero, and the 16 bytes it fills otherwise;
  \<open>ringbuf_reserve\<close> tells whether \<open>bpf_ringbuf_reserve\<close> returns a slot.
\<close>

record task_struct =
  task_comm :: "char list"
  real_parent_pid :: u32

record helpers =
  current_task :: "task_struct option"
  current_pid_tgid :: u64
  current_uid_gid :: u64
  ktime_get_ns :: u64
  current_comm :: "char list option"
  ringbuf_reserve :: bool

text \<open>
  User memory as seen through \<open>bpf_probe_read_user(&c, 1, data + i)\<close>: the byte at
  offset \<open>i\<close> from the buffer pointer, or \<open>None\<close> when the read returns non-zero.
\<close>

type_synonym umem = "nat \<Rightarrow> char option"

text \<open>A buffer whose bytes are all readable, and nothing readable behind it.\<close>

definition mem_of :: "char list \<Rightarrow> umem" where
  "mem_of xs i = (if i < length xs then Some (xs ! i) else None)"

text \<open>
  \<open>struct sockaddr_in\<close> behind the pointer of connect's second argument, each field
  as \<open>bpf_probe_read_kernel\<close> delivers it (\<open>None\<close>: the read fails).
\<close>

record sockaddr_in =
  sin_family :: "u16 option"
  sin_port :: "u16 option"
  sin_addr :: "u32 option"

text \<open>\<open>bpf_ntohs\<close> on a little-endian host: the two bytes swapped.\<close>

definition bpf_ntohs :: "u16 \<Rightarrow> u16" where
  "bpf_ntohs x = push_bit 8 x OR drop_bit 8 x"

text \<open>
  \<open>bpf_map_update_elem(map, key, value, BPF_ANY)\<close> on a hash map of
  \<open>max_entries\<close> slots: the key is overwritten when present, inserted when there
  is room, and the call fails, leaving the map as it is, when the map is full. The
  handlers ignore its result.
\<close>

definition bpf_map_update_elem :: "nat \<Rightarrow> ('k, 'v) fmap \<Rightarrow> 'k \<Rightarrow> 'v \<Rightarrow> ('k, 'v) fmap" where
  "bpf_map_update_elem max_entries m k v =
     (if k |\<in>| fmdom m \<or> fcard (fmdom m) < max_entries then fmupd k v m else m)"

definition bpf_map_delete_elem :: "('k, 'v) fmap \<Rightarrow> 'k \<Rightarrow> ('k, 'v) fmap" where
  "bpf_map_delete_elem m k = fmdrop k m"

definition bpf_ringbuf_submit :: "claude_event \<Rightarrow> bpf_state \<Rightarrow> bpf_state" where
  "bpf_ringbuf_submit event s = s\<lparr>events := events s @ [event]\<rparr>"

text \<open>
  The string helpers (\<open>bpf_probe_read_user_str\<close>, \<open>BPF_CORE_READ_STR_INTO\<close>)
  copy the source up to its terminator, at most \<open>sz - 1\<close> bytes, into a zeroed
  array of \<open>sz\<close> bytes.
\<close>

definition read_str :: "nat \<Rightarrow> char list \<Rightarrow> char list" where
  "read_str sz src =
     (let str = take (sz - 1) (takeWhile (\<lambda>c. c \<noteq> NUL) src)
      in str @ replicate (sz - length str) NUL)"

definition increment_counter :: "perf_counter \<Rightarrow> bpf_state \<Rightarrow> bpf_state" where
  "increment_counter counter s =
     s\<lparr>perf_counters := (perf_counters s)(counter := perf_counters s counter + 1)\<rparr>"

section \<open>The HTTP parser\<close>

text \<open>
  How a scan for the blank ends: at the blank (with its index), at the loop bound, or
  at a byte that cannot be read.
\<close>

datatype scan = Space nat | NoSpace | ReadFault

text \<open>
  The loop of \<open>parse_http_method\<close> and of \<open>parse_http_uri\<close>, which differ in
  their constants only:
  \<^verbatim>\<open>for (int i = 0; i < LIMIT && i < bound; i++) {
      char c;
      if (bpf_probe_read_user(&c, 1, start + i) != 0) return -1;
      if (c == ' ') { pos = i; break; }
      if (i < max_len - 1) out[i] = c;
  }\<close>
  \<open>limit\<close> is \<open>MAX_HTTP_METHOD_LEN\<close> or \<open>MAX_HTTP_URI_LEN\<close>, \<open>bound\<close> is
  \<open>data_len\<close> or \<open>uri_max_len\<close>, \<open>start\<close> the offset of the first byte.
\<close>

function scan_space :: "umem \<Rightarrow> nat \<Rightarrow> nat \<Rightarrow> int \<Rightarrow> int \<Rightarrow> nat \<Rightarrow> char list \<Rightarrow> scan \<times> char list" where
  "scan_space data start limit bound max_len i out =
     (if i < limit \<and> int i < bound then
        (case data (start + i) of
           None \<Rightarrow> (ReadFault, out)
         | Some c \<Rightarrow>
             if c = SPACE then (Space i, out)
             else scan_space data start limit bound max_len (i + 1)
                    (if int i < max_len - 1 then out[i := c] else out))
      else (NoSpace, out))"
  by pat_completeness auto
termination
  by (relation "measure (\<lambda>(data, start, limit, bound, max_len, i, out). limit - i)") auto

declare scan_space.simps [simp del]

text \<open>
  \<open>parse_http_method\<close> returns the C result (\<open>-1\<close> or the position of the blank)
  and the contents of \<open>method_out\<close>.
\<close>

definition parse_http_method :: "umem \<Rightarrow> int \<Rightarrow> char list \<Rightarrow> int \<Rightarrow> int \<times> char list" where
  "parse_http_method data data_len method_out max_len =
     (if data_len < 8 \<or> max_len < 8 then (-1, method_out)
      else
        (case scan_space data 0 MAX_HTTP_METHOD_LEN data_len max_len 0 method_out of
           (ReadFault, out) \<Rightarrow> (-1, out)
         | (NoSpace, out) \<Rightarrow> (-1, out)
         | (Space space_pos, out) \<Rightarrow>
             if int space_pos \<ge> max_len then (-1, out)
             else (int space_pos, out[space_pos := NUL])))"

text \<open>
  \<open>parse_http_uri\<close>; \<open>uri_len\<close> starts at 0 and stays 0 when no blank is found.
  The handler calls it with \<open>method_len \<ge> 3\<close>, so \<open>uri_start\<close> lies in the buffer.
\<close>

definition parse_http_uri :: "umem \<Rightarrow> int \<Rightarrow> int \<Rightarrow> char list \<Rightarrow> int \<Rightarrow> int \<times> char list" where
  "parse_http_uri data data_len method_len uri_out max_len =
     (if data_len < method_len + 2 \<or> method_len \<ge> data_len then (-1, uri_out)
      else
        (let uri_start = nat (method_len + 1);
             uri_max_len = data_len - method_len - 1
         in case scan_space data uri_start MAX_HTTP_URI_LEN uri_max_len max_len 0 uri_out of
              (ReadFault, out) \<Rightarrow> (-1, out)
            | (NoSpace, out) \<Rightarrow> (-1, out)
            | (Space uri_len, out) \<Rightarrow>
                if uri_len = 0 \<or> int uri_len \<ge> max_len then (-1, out)
                else (int uri_len, out[uri_len := NUL])))"

text \<open>The header literal of \<open>parse_content_length\<close>; \<open>cl_header_len = 16\<close>.\<close>

definition cl_header :: string where "cl_header = ''Content-Length: ''"
definition cl_header_len :: nat where "cl_header_len = 16"

text \<open>
  The comparison loop over \<open>j\<close> at buffer position \<open>i\<close>: it leaves by
  \<open>return 0\<close> on an unreadable byte, by \<open>match = 0; break\<close>, or with \<open>match\<close>
  still 1.
\<close>

datatype hdr = HdrFault | HdrMismatch | HdrMatch

function match_header :: "umem \<Rightarrow> nat \<Rightarrow> nat \<Rightarrow> hdr" where
  "match_header data i j =
     (if j < cl_header_len then
        (case data (i + j) of
           None \<Rightarrow> HdrFault
         | Some c \<Rightarrow> if c \<noteq> cl_header ! j then HdrMismatch else match_header data i (j + 1))
      else HdrMatch)"
  by pat_completeness auto
termination
  by (relation "measure (\<lambda>(data, i, j). cl_header_len - j)") auto

declare match_header.simps [simp del]

text \<open>
  The digit loop over \<open>k\<close>, with how it stopped: an unreadable byte, a byte that is
  no digit, or the loop bound (ten digits, or the end of the buffer). Whatever the
  signedness of \<open>char\<close>, \<open>c >= '0' && c <= '9'\<close> holds for the bytes 48 to 57 only.
  \<open>content_len\<close> is a \<open>__u32\<close>: the arithmetic wraps.
\<close>

datatype stop = StopFault | StopNonDigit | StopBound

definition is_digit :: "char \<Rightarrow> bool" where
  "is_digit c = (48 \<le> (of_char c :: nat) \<and> (of_char c :: nat) \<le> 57)"

definition digit_val :: "char \<Rightarrow> u32" where
  "digit_val c = of_nat (of_char c - 48)"

function accumulate_digits :: "umem \<Rightarrow> int \<Rightarrow> nat \<Rightarrow> nat \<Rightarrow> u32 \<Rightarrow> u32 \<times> stop" where
  "accumulate_digits data data_len start_pos k content_len =
     (if k < 10 \<and> int (start_pos + k) < data_len then
        (case data (start_pos + k) of
           None \<Rightarrow> (content_len, StopFault)
         | Some c \<Rightarrow>
             if is_digit c
             then accumulate_digits data data_len start_pos (k + 1) (content_len * 10 + digit_val c)
             else (content_len, StopNonDigit))
      else (content_len, StopBound))"
  by pat_completeness auto
termination
  by (relation "measure (\<lambda>(data, data_len, start_pos, k, content_len). 10 - k)") auto

declare accumulate_digits.simps [simp del]

text \<open>
  The search loop over \<open>i\<close>, with the return statement it leaves by: \<open>return 0\<close>
  inside the comparison (an unreadable byte), \<open>return content_len\<close> after the
  digits, or the final \<open>return 0\<close>.
\<close>

datatype cl_result = HeaderFault | Parsed u32 stop | NotFound

function search_header :: "umem \<Rightarrow> int \<Rightarrow> nat \<Rightarrow> cl_result" where
  "search_header data data_len i =
     (if i < HTTP_HEADER_SIZE \<and> int i < data_len - int cl_header_len then
        (case match_header data i 0 of
           HdrFault \<Rightarrow> HeaderFault
         | HdrMatch \<Rightarrow>
             (case accumulate_digits data data_len (i + cl_header_len) 0 0 of
                (content_len, how) \<Rightarrow> Parsed content_len how)
         | HdrMismatch \<Rightarrow> search_header data data_len (i + 1))
      else NotFound)"
  by pat_completeness auto
termination
  by (relation "measure (\<lambda>(data, data_len, i). HTTP_HEADER_SIZE - i)") auto

declare search_header.simps [simp del]

definition parse_content_length :: "umem \<Rightarrow> int \<Rightarrow> u32" where
  "parse_content_length data data_len =
     (case search_header data data_len 0 of
        HeaderFault \<Rightarrow> 0
      | Parsed content_len how \<Rightarrow> content_len
      | NotFound \<Rightarrow> 0)"

definition is_anthropic_connection :: "u32 \<Rightarrow> u16 \<Rightarrow> bool" where
  "is_anthropic_connection addr port = (port = 443 \<or> port = 80)"

section \<open>The process filter\<close>

text \<open>
  \<open>is_claude_process\<close>: the loop runs over \<open>sizeof(target) - 1 = 6\<close> positions of
  the 16-byte \<open>comm\<close>.
\<close>

function is_claude_loop :: "char list \<Rightarrow> nat \<Rightarrow> bool" where
  "is_claude_loop comm i =
     (if i < length CLAUDE_COMM then
        (if comm ! i \<noteq> CLAUDE_COMM ! i then False
         else if comm ! i = NUL then True
         else is_claude_loop comm (i + 1))
      else True)"
  by pat_completeness auto
termination
  by (relation "measure (\<lambda>(comm, i). length CLAUDE_COMM - i)") auto

declare is_claude_loop.simps [simp del]

definition is_claude_process :: "char list \<Rightarrow> bool" where
  "is_claude_process comm = is_claude_loop comm 0"

text \<open>The process name a \<open>comm\<close> array holds: its bytes up to the terminator.\<close>

definition comm_name :: "char list \<Rightarrow> string" where
  "comm_name comm = takeWhile (\<lambda>c. c \<noteq> NUL) comm"

section \<open>The four handlers\<close>

definition current_pid :: "helpers \<Rightarrow> u32" where
  "current_pid k = ucast (drop_bit 32 (current_pid_tgid k))"

definition current_uid :: "helpers \<Rightarrow> u32" where
  "current_uid k = ucast (current_uid_gid k AND 0xFFFFFFFF)"

text \<open>
  \<open>bpf_get_current_comm(&event->comm, ...)\<close> with its result ignored: the helper
  zeroes the array when it fails.
\<close>

definition comm_or_zero :: "helpers \<Rightarrow> char list" where
  "comm_or_zero k = (case current_comm k of None \<Rightarrow> replicate MAX_COMM_LEN NUL | Some c \<Rightarrow> c)"

text \<open>
  \<open>trace_execve\<close>; \<open>filename\<close> is the string behind \<open>ctx->args[0]\<close>, \<open>None\<close>
  for a null pointer or an unreadable string (the path stays zeroed).
\<close>

definition trace_execve :: "helpers \<Rightarrow> char list option \<Rightarrow> bpf_state \<Rightarrow> bpf_state" where
  "trace_execve k filename s =
     (case current_task k of
        None \<Rightarrow> s
      | Some task \<Rightarrow>
          (let p = current_pid k; ts = ktime_get_ns k; u = current_uid k
           in case current_comm k of
                None \<Rightarrow> s
              | Some comm \<Rightarrow>
                  if \<not> is_claude_process comm then s
                  else
                    (let s1 = increment_counter COUNTER_EXECVE_CALLS s
                     in if \<not> ringbuf_reserve k then increment_counter COUNTER_EVENTS_DROPPED s1
                        else
                          (let event = zero_event
                                 \<lparr>ev_timestamp := ts, ev_pid := p,
                                  ev_ppid := real_parent_pid task, ev_uid := u,
                                  ev_event_type := event_code EVENT_EXEC,
                                  ev_comm := comm,
                                  ev_path := (case filename of
                                                None \<Rightarrow> replicate MAX_PATH_LEN NUL
                                              | Some str \<Rightarrow> read_str MAX_PATH_LEN str)\<rparr>;
                               s2 = s1\<lparr>claude_pids :=
                                     bpf_map_update_elem claude_pids_max_entries (claude_pids s1) p ts\<rparr>
                           in increment_counter COUNTER_EVENTS_PROCESSED
                                (bpf_ringbuf_submit event s2)))))"

text \<open>
  \<open>trace_connect\<close>; \<open>fd_arg\<close> is \<open>ctx->args[0]\<close> and \<open>addr\<close> what lies behind
  \<open>ctx->args[1]\<close> (\<open>None\<close> for a null pointer).
\<close>

definition trace_connect :: "helpers \<Rightarrow> u64 \<Rightarrow> sockaddr_in option \<Rightarrow> bpf_state \<Rightarrow> bpf_state" where
  "trace_connect k fd_arg addr s =
     (let p = current_pid k
      in case fmlookup (claude_pids s) p of
           None \<Rightarrow> s
         | Some start_time \<Rightarrow>
             (let s1 = increment_counter COUNTER_CONNECT_CALLS s; ts = ktime_get_ns k
              in case addr of
                   None \<Rightarrow> s1
                 | Some a \<Rightarrow>
                     (case sin_family a of
                        None \<Rightarrow> s1
                      | Some family \<Rightarrow>
                          if family \<noteq> AF_INET then s1
                          else if \<not> ringbuf_reserve k
                          then increment_counter COUNTER_EVENTS_DROPPED s1
                          else
                            (case sin_addr a of
                               None \<Rightarrow> s1
                             | Some target \<Rightarrow>
                                 (case sin_port a of
                                    None \<Rightarrow> s1
                                  | Some port_be \<Rightarrow>
                                      (let port = bpf_ntohs port_be;
                                           event = zero_event
                                             \<lparr>ev_timestamp := ts, ev_pid := p,
                                              ev_uid := current_uid k,
                                              ev_event_type := event_code EVENT_CONNECT,
                                              ev_target_addr := target,
                                              ev_target_port := port,
                                              ev_comm := comm_or_zero k\<rparr>;
                                           s2 = (if is_anthropic_connection target port
                                                 then
                                                   (let socket_fd = (ucast fd_arg :: u32);
                                                        sock_info =
                                                          \<lparr>si_pid = p, si_target_addr = target,
                                                           si_target_port = port,
                                                           si_connect_time = ts\<rparr>
                                                    in s1\<lparr>socket_connections :=
                                                          bpf_map_update_elem
                                                            socket_connections_max_entries
                                                            (socket_connections s1) socket_fd
                                                            sock_info\<rparr>)
                                                 else s1)
                                       in increment_counter COUNTER_EVENTS_PROCESSED
                                            (bpf_ringbuf_submit event s2)))))))"

text \<open>
  \<open>trace_exit\<close>; \<open>ctx_pid\<close> and \<open>ctx_exit_code\<close> are the two fields of the
  tracepoint context.
\<close>

definition trace_exit :: "helpers \<Rightarrow> u32 \<Rightarrow> u32 \<Rightarrow> bpf_state \<Rightarrow> bpf_state" where
  "trace_exit k ctx_pid ctx_exit_code s =
     (let p = ctx_pid
      in case fmlookup (claude_pids s) p of
           None \<Rightarrow> s
         | Some start_time \<Rightarrow>
             if \<not> ringbuf_reserve k
             then increment_counter COUNTER_EVENTS_DROPPED
                    (s\<lparr>claude_pids := bpf_map_delete_elem (claude_pids s) p\<rparr>)
             else
               (let event = zero_event
                      \<lparr>ev_timestamp := ktime_get_ns k, ev_pid := p,
                       ev_event_type := event_code EVENT_EXIT,
                       ev_exit_code := ctx_exit_code,
                       ev_comm := (case current_task k of
                                     None \<Rightarrow> replicate MAX_COMM_LEN NUL
                                   | Some task \<Rightarrow> read_str MAX_COMM_LEN (task_comm task))\<rparr>;
                    s1 = s\<lparr>claude_pids := bpf_map_delete_elem (claude_pids s) p\<rparr>
                in increment_counter COUNTER_EVENTS_PROCESSED (bpf_ringbuf_submit event s1)))"

text \<open>
  \<open>trace_write\<close>; \<open>fd_arg\<close>, \<open>buf\<close> and \<open>count\<close> are the three arguments of the
  system call. \<open>count\<close> is a \<open>size_t\<close>; behind the size check it is between 16 and
  512, so its conversion to the \<open>int data_len\<close> of the parsers keeps its value.
\<close>

definition trace_write :: "helpers \<Rightarrow> u64 \<Rightarrow> umem \<Rightarrow> u64 \<Rightarrow> bpf_state \<Rightarrow> bpf_state" where
  "trace_write k fd_arg buf count s =
     (let p = current_pid k
      in case fmlookup (claude_pids s) p of
           None \<Rightarrow> s
         | Some start_time \<Rightarrow>
             (let socket_fd = (ucast fd_arg :: u32)
              in case fmlookup (socket_connections s) socket_fd of
                   None \<Rightarrow> s
                 | Some sock_info \<Rightarrow>
                     if count < 16 \<or> count > of_nat HTTP_HEADER_SIZE then s
                     else
                       (let ts = ktime_get_ns k;
                            data_len = uint count
                        in case parse_http_method buf data_len
                                  (replicate MAX_HTTP_METHOD_LEN NUL) (int MAX_HTTP_METHOD_LEN) of
                             (method_len, method) \<Rightarrow>
                               if method_len < 3 then s
                               else
                                 (case parse_http_uri buf data_len method_len
                                         (replicate MAX_HTTP_URI_LEN NUL) (int MAX_HTTP_URI_LEN) of
                                    (uri_len, uri) \<Rightarrow>
                                      if uri_len < 1 then s
                                      else
                                        (let content_length = parse_content_length buf data_len;
                                             s1 = increment_counter COUNTER_HTTP_REQUESTS s
                                         in if \<not> ringbuf_reserve k
                                            then increment_counter COUNTER_EVENTS_DROPPED s1
                                            else
                                              (let event = zero_event
                                                     \<lparr>ev_timestamp := ts, ev_pid := p,
                                                      ev_uid := current_uid k,
                                                      ev_event_type := event_code EVENT_HTTP_REQUEST,
                                                      ev_target_addr := si_target_addr sock_info,
                                                      ev_target_port := si_target_port sock_info,
                                                      ev_comm := comm_or_zero k,
                                                      ev_http_method := method,
                                                      ev_http_uri := uri,
                                                      ev_content_length := content_length,
                                                      ev_socket_fd := socket_fd\<rparr>
                                               in increment_counter COUNTER_EVENTS_PROCESSED
                                                    (bpf_ringbuf_submit event s1)))))))"

section \<open>Sample values\<close>

text \<open>
  The state of a freshly loaded program, and the helpers' results for a process of
  the given name with process id 100, user id 1000 and parent 1, at time 5000:
  the concrete inputs of the examples below.
\<close>

definition initial_state :: bpf_state where
  "initial_state =
     \<lparr>events = [], claude_pids = fmempty, socket_connections = fmempty,
      perf_counters = (\<lambda>counter. 0)\<rparr>"

definition helpers_of :: "string \<Rightarrow> bool \<Rightarrow> helpers" where
  "helpers_of name free =
     \<lparr>current_task = Some \<lparr>task_comm = read_str MAX_COMM_LEN name, real_parent_pid = 1\<rparr>,
      current_pid_tgid = 0x0000006400000064, current_uid_gid = 0x000003E8000003E8,
      ktime_get_ns = 5000, current_comm = Some (read_str MAX_COMM_LEN name),
      ringbuf_reserve = free\<rparr>"

text \<open>The fresh state after process 100 has been marked at time 5000.\<close>

definition tracked_state :: bpf_state where
  "tracked_state = initial_state\<lparr>claude_pids := fmupd 100 5000 fmempty\<rparr>"

text \<open>An IPv4 destination 127.0.0.1, port 443 (in network byte order).\<close>

definition sample_addr :: sockaddr_in where
  "sample_addr = \<lparr>sin_family = Some AF_INET, sin_port = Some 0xBB01, sin_addr = Some 0x0100007F\<rparr>"

text \<open>
  A socket entry for descriptor 3 of process 100, as a connect to 127.0.0.1:443 at
  time 4000 leaves it, and the state that holds it.
\<close>

definition sample_socket :: socket_info where
  "sample_socket =
     \<lparr>si_pid = 100, si_target_addr = 0x0100007F, si_target_port = 443, si_connect_time = 4000\<rparr>"

definition correlated_state :: bpf_state where
  "correlated_state = tracked_state\<lparr>socket_connections := fmupd 3 sample_socket fmempty\<rparr>"

text \<open>Carriage return and line feed, and the request of the specification's example.\<close>

definition CRLF :: string where "CRLF = [CHR 0x0D, CHR 0x0A]"

definition http_request :: string where
  "http_request = ''GET /v1/messages HTTP/1.1'' @ CRLF @ ''Content-Length: 42'' @ CRLF @ CRLF"

text \<open>A request line whose method has two letters.\<close>

definition short_method_request :: string where
  "short_method_request = ''AB /index.html HTTP/1.1'' @ CRLF @ CRLF"

text \<open>The header followed by eleven digits.\<close>

definition eleven_digits :: string where
  "eleven_digits = cl_header @ ''00000000427''"

text \<open>The same destination with port 8080 (in network byte order).\<close>

definition sample_addr_8080 :: sockaddr_in where
  "sample_addr_8080 =
     \<lparr>sin_family = Some AF_INET, sin_port = Some 0x901F, sin_addr = Some 0x0100007F\<rparr>"

text \<open>
  A socket map that is full: the 2048 descriptors 0 to 2047 all have an entry. The
  state that holds it tracks process 100.
\<close>

definition full_socket_table :: "(u32, socket_info) fmap" where
  "full_socket_table = fmap_of_list (map (\<lambda>fd. (of_nat fd, sample_socket)) [0..<2048])"

definition full_state :: bpf_state where
  "full_state = tracked_state\<lparr>socket_connections := full_socket_table\<rparr>"

text \<open>
  Two requests of which only the beginning can be read: one ends inside the digits of
  the content length, one inside the header name.
\<close>

definition faulting_digits :: string where
  "faulting_digits = ''GET /v1/messages HTTP/1.1'' @ CRLF @ ''Content-Length: 4''"

definition faulting_header :: string where
  "faulting_header = ''GET /v1/messages HTTP/1.1'' @ CRLF @ ''Content-Le''"

text \<open>
  An identity map that is full: the 1024 process ids 1000 to 2023 all have an entry
  (process 100 has none), and the state that holds it.
\<close>

definition full_pid_table :: "(u32, u64) fmap" where
  "full_pid_table = fmap_of_list (map (\<lambda>p. (of_nat p, 5000)) [1000..<2024])"

definition full_pid_state :: bpf_state where
  "full_pid_state = initial_state\<lparr>claude_pids := full_pid_table\<rparr>"

section \<open>Notions used in the statements\<close>

text \<open>The \<open>n\<close> bytes of user memory from offset \<open>start\<close> on (where they are readable).\<close>

definition bytes_at :: "umem \<Rightarrow> nat \<Rightarrow> nat \<Rightarrow> char list" where
  "bytes_at data start n = map (\<lambda>q. the (data (start + q))) [0..<n]"

text \<open>
  The first \<open>n\<close> bytes from offset \<open>start\<close> on can be read and none of them is a
  blank: what a scan needs to get past them.
\<close>

definition no_space :: "umem \<Rightarrow> nat \<Rightarrow> nat \<Rightarrow> bool" where
  "no_space data start n = list_all (\<lambda>q. case data (start + q) of None \<Rightarrow> False | Some c \<Rightarrow> c \<noteq> SPACE) [0..<n]"

text \<open>
  What the bytes at offset \<open>i\<close> are to the header search, read in the order of the
  comparison: the first \<open>j\<close> of them are the first \<open>j\<close> bytes of the header literal;
  all 16 are; one of them differs from the literal after a matching beginning; one
  of them cannot be read after a matching beginning.
\<close>

definition header_prefix :: "umem \<Rightarrow> nat \<Rightarrow> nat \<Rightarrow> bool" where
  "header_prefix data i j = list_all (\<lambda>j'. data (i + j') = Some (cl_header ! j')) [0..<j]"

definition header_at :: "umem \<Rightarrow> nat \<Rightarrow> bool" where
  "header_at data i = header_prefix data i 16"

definition mismatch_at :: "umem \<Rightarrow> nat \<Rightarrow> bool" where
  "mismatch_at data i =
     list_ex (\<lambda>j. header_prefix data i j
                 \<and> (case data (i + j) of None \<Rightarrow> False | Some c \<Rightarrow> c \<noteq> cl_header ! j)) [0..<16]"

definition fault_at :: "umem \<Rightarrow> nat \<Rightarrow> bool" where
  "fault_at data i = list_ex (\<lambda>j. header_prefix data i j \<and> data (i + j) = None) [0..<16]"

text \<open>The number a string of decimal digits denotes.\<close>

definition decimal_value :: "string \<Rightarrow> nat" where
  "decimal_value ds = foldl (\<lambda>n c. n * 10 + (of_char c - 48)) 0 ds"

text \<open>
  The record \<open>trace_write\<close> fills in for a socket entry \<open>sock_info\<close>, and the one
  \<open>trace_connect\<close> fills in, written out once for the statements below.
\<close>

definition http_request_event ::
  "helpers \<Rightarrow> socket_info \<Rightarrow> u32 \<Rightarrow> char list \<Rightarrow> char list \<Rightarrow> u32 \<Rightarrow> claude_event" where
  "http_request_event k sock_info socket_fd method uri content_length =
     \<lparr>ev_timestamp = ktime_get_ns k, ev_pid = current_pid k, ev_ppid = 0,
      ev_uid = current_uid k, ev_event_type = 4,
      ev_target_addr = si_target_addr sock_info, ev_target_port = si_target_port sock_info,
      ev_exit_code = 0, ev_comm = comm_or_zero k, ev_path = replicate 256 NUL,
      ev_http_method = method, ev_http_uri = uri,
      ev_content_length = content_length, ev_socket_fd = socket_fd\<rparr>"

definition connect_event :: "helpers \<Rightarrow> u32 \<Rightarrow> u16 \<Rightarrow> claude_event" where
  "connect_event k target port =
     \<lparr>ev_timestamp = ktime_get_ns k, ev_pid = current_pid k, ev_ppid = 0,
      ev_uid = current_uid k, ev_event_type = 2,
      ev_target_addr = target, ev_target_port = port,
      ev_exit_code = 0, ev_comm = comm_or_zero k, ev_path = replicate 256 NUL,
      ev_http_method = replicate 8 NUL, ev_http_uri = replicate 128 NUL,
      ev_content_length = 0, ev_socket_fd = 0\<rparr>"

section \<open>Basic facts\<close>

lemma increment_counter_simps [simp]:
  "events (increment_counter c s) = events s"
  "claude_pids (increment_counter c s) = claude_pids s"
  "socket_connections (increment_counter c s) = socket_connections s"
  "perf_counters (increment_counter c s) = (perf_counters s)(c := perf_counters s c + 1)"
  by (simp_all add: increment_counter_def)

lemma bpf_ringbuf_submit_simps [simp]:
  "events (bpf_ringbuf_submit e s) = events s @ [e]"
  "claude_pids (bpf_ringbuf_submit e s) = claude_pids s"
  "socket_connections (bpf_ringbuf_submit e s) = socket_connections s"
  "perf_counters (bpf_ringbuf_submit e s) = perf_counters s"
  by (simp_all add: bpf_ringbuf_submit_def)

lemma helpers_of_simps [simp]:
  "current_task (helpers_of n f) =
     Some \<lparr>task_comm = read_str MAX_COMM_LEN n, real_parent_pid = 1\<rparr>"
  "ktime_get_ns (helpers_of n f) = 5000"
  "current_comm (helpers_of n f) = Some (read_str MAX_COMM_LEN n)"
  "ringbuf_reserve (helpers_of n f) = f"
  "current_pid (helpers_of n f) = 100"
  "current_uid (helpers_of n f) = 1000"
  by (simp_all add: helpers_of_def current_pid_def current_uid_def)

lemma initial_state_simps [simp]:
  "events initial_state = []"
  "claude_pids initial_state = fmempty"
  "socket_connections initial_state = fmempty"
  "perf_counters initial_state c = 0"
  by (simp_all add: initial_state_def)

lemma trace_exit_untracked:
  "fmlookup (claude_pids s) p = None \<Longrightarrow> trace_exit k p code s = s"
  by (simp add: trace_exit_def)

lemma trace_connect_untracked:
  "fmlookup (claude_pids s) (current_pid k) = None \<Longrightarrow> trace_connect k fd addr s = s"
  by (simp add: trace_connect_def)

lemma trace_write_untracked:
  "fmlookup (claude_pids s) (current_pid k) = None \<Longrightarrow> trace_write k fd buf count s = s"
  by (simp add: trace_write_def)

lemma trace_exit_claude_pids:
  "claude_pids (trace_exit k p code s) = fmdrop p (claude_pids s)"
  by (cases "fmlookup (claude_pids s) p")
     (auto simp: trace_exit_def bpf_map_delete_elem_def Let_def fmdrop_idle fmdom_notI)

lemma trace_exit_dropped:
  "fmlookup (claude_pids s) p = Some t \<Longrightarrow> \<not> ringbuf_reserve k \<Longrightarrow>
   trace_exit k p code s =
     s\<lparr>claude_pids := fmdrop p (claude_pids s),
       perf_counters := (perf_counters s)
         (COUNTER_EVENTS_DROPPED := perf_counters s COUNTER_EVENTS_DROPPED + 1)\<rparr>"
  by (simp add: trace_exit_def bpf_map_delete_elem_def increment_counter_def)

lemma trace_execve_dropped:
  "current_task k = Some task \<Longrightarrow> current_comm k = Some comm \<Longrightarrow> is_claude_process comm \<Longrightarrow>
   \<not> ringbuf_reserve k \<Longrightarrow>
   trace_execve k filename s =
     s\<lparr>perf_counters := (perf_counters s)
         (COUNTER_EXECVE_CALLS := perf_counters s COUNTER_EXECVE_CALLS + 1,
          COUNTER_EVENTS_DROPPED := perf_counters s COUNTER_EVENTS_DROPPED + 1)\<rparr>"
  by (simp add: trace_execve_def increment_counter_def)

lemma trace_execve_marks:
  "current_task k = Some task \<Longrightarrow> current_comm k = Some comm \<Longrightarrow> is_claude_process comm \<Longrightarrow>
   ringbuf_reserve k \<Longrightarrow>
   current_pid k |\<in>| fmdom (claude_pids s)
     \<or> fcard (fmdom (claude_pids s)) < claude_pids_max_entries \<Longrightarrow>
   fmlookup (claude_pids (trace_execve k filename s)) (current_pid k) = Some (ktime_get_ns k)"
  by (auto simp add: trace_execve_def Let_def bpf_map_update_elem_def)

lemma is_claude_loop_iff:
  "is_claude_loop comm i = (\<forall>j. i \<le> j \<and> j < 6 \<longrightarrow> comm ! j = CLAUDE_COMM ! j)"
proof (induction "6 - i" arbitrary: i)
  case 0
  have "length CLAUDE_COMM = 6" by (simp add: CLAUDE_COMM_def)
  with 0 show ?case by (subst is_claude_loop.simps) auto
next
  case (Suc n)
  then have i: "i < 6" and ih: "is_claude_loop comm (i + 1) =
      (\<forall>j. i + 1 \<le> j \<and> j < 6 \<longrightarrow> comm ! j = CLAUDE_COMM ! j)"
    by auto
  have nz: "CLAUDE_COMM ! i \<noteq> NUL"
    using i by (auto simp: CLAUDE_COMM_def NUL_def nth_Cons' less_Suc_eq numeral_eq_Suc)
  have "is_claude_loop comm i = (comm ! i = CLAUDE_COMM ! i \<and> is_claude_loop comm (i + 1))"
    using i nz by (subst is_claude_loop.simps) (auto simp: CLAUDE_COMM_def)
  also have "\<dots> = (\<forall>j. i \<le> j \<and> j < 6 \<longrightarrow> comm ! j = CLAUDE_COMM ! j)"
  proof -
    have "\<And>j. (i \<le> j \<and> j < 6) = (j = i \<or> (i + 1 \<le> j \<and> j < 6))"
      using i by arith
    then show ?thesis unfolding ih by auto
  qed
  finally show ?case .
qed

text \<open>The filter compares the first six bytes only.\<close>

lemma is_claude_process_prefix:
  "6 \<le> length comm \<Longrightarrow> is_claude_process comm = (take 6 comm = CLAUDE_COMM)"
  by (auto simp: is_claude_process_def is_claude_loop_iff list_eq_iff_nth_eq CLAUDE_COMM_def)

lemma read_str_claudette:
  "read_str MAX_COMM_LEN ''claudette'' = ''claudette'' @ replicate 7 NUL"
  by (simp add: read_str_def MAX_COMM_LEN_def NUL_def)

lemma read_str_claude:
  "read_str MAX_COMM_LEN ''claude'' = ''claude'' @ replicate 10 NUL"
  by (simp add: read_str_def MAX_COMM_LEN_def NUL_def)

lemma is_claude_process_claudette:
  "is_claude_process (read_str MAX_COMM_LEN ''claudette'')"
  by (simp add: read_str_claudette is_claude_process_prefix CLAUDE_COMM_def)

lemma is_claude_process_claude:
  "is_claude_process (read_str MAX_COMM_LEN ''claude'')"
  by (simp add: read_str_claude is_claude_process_prefix CLAUDE_COMM_def)

lemma tracked_state_simps [simp]:
  "events tracked_state = []"
  "claude_pids tracked_state = fmupd 100 5000 fmempty"
  "socket_connections tracked_state = fmempty"
  "perf_counters tracked_state c = 0"
  by (simp_all add: tracked_state_def)

section \<open>The exec filter (C1)\<close>

text \<open>
  C1 says that a process whose name is not exactly \<open>claude\<close> is never marked and
  never reported. The filter looks at six bytes only: for the name \<open>claudette\<close> the
  exec handler emits an EXEC record and marks process 100.
\<close>

theorem trace_execve_prefix_only:
  "comm_name (read_str MAX_COMM_LEN ''claudette'') = ''claudette''
   \<and> ''claudette'' \<noteq> CLAUDE_COMM
   \<and> is_claude_process (read_str MAX_COMM_LEN ''claudette'')
   \<and> events (trace_execve (helpers_of ''claudette'' True) None initial_state) =
       [zero_event\<lparr>ev_timestamp := 5000, ev_pid := 100, ev_ppid := 1, ev_uid := 1000,
                    ev_event_type := event_code EVENT_EXEC,
                    ev_comm := read_str MAX_COMM_LEN ''claudette''\<rparr>]
   \<and> fmlookup (claude_pids (trace_execve (helpers_of ''claudette'' True) None initial_state)) 100
       = Some 5000"
proof -
  have 1: "comm_name (read_str MAX_COMM_LEN ''claudette'') = ''claudette''"
    by (simp add: read_str_claudette comm_name_def NUL_def)
  have 2: "''claudette'' \<noteq> CLAUDE_COMM" by (simp add: CLAUDE_COMM_def)
  note 3 = is_claude_process_claudette
  have 4: "events (trace_execve (helpers_of ''claudette'' True) None initial_state) =
       [zero_event\<lparr>ev_timestamp := 5000, ev_pid := 100, ev_ppid := 1, ev_uid := 1000,
                    ev_event_type := event_code EVENT_EXEC,
                    ev_comm := read_str MAX_COMM_LEN ''claudette''\<rparr>]"
    using 3 by (simp add: trace_execve_def Let_def zero_event_def)
  have 5: "fmlookup (claude_pids (trace_execve (helpers_of ''claudette'' True) None initial_state)) 100
       = Some 5000"
    using 3 by (simp add: trace_execve_def Let_def bpf_map_update_elem_def
        claude_pids_max_entries_def fcard_fempty)
  show ?thesis using 1 2 3 4 5 by blast
qed

section \<open>Exit handling (C8, C9)\<close>

text \<open>
  C8: running the exit handler twice for one process id is the same as running it
  once, whatever the helpers return and whatever the exit codes: after the first run
  the process has no entry, and the second run changes nothing (no record, no
  counter, both maps as they were).
\<close>

theorem trace_exit_idempotent:
  "trace_exit k2 p code2 (trace_exit k1 p code1 s) = trace_exit k1 p code1 s
   \<and> fmlookup (claude_pids (trace_exit k1 p code1 s)) p = None"
  by (simp add: trace_exit_untracked trace_exit_claude_pids)

theorem trace_exit_idempotent_witness:
  "fmlookup (claude_pids tracked_state) 100 = Some 5000
   \<and> events (trace_exit (helpers_of ''claude'' True) 100 0 tracked_state) \<noteq> []
   \<and> trace_exit (helpers_of ''claude'' False) 100 0
        (trace_exit (helpers_of ''claude'' True) 100 0 tracked_state)
      = trace_exit (helpers_of ''claude'' True) 100 0 tracked_state
   \<and> fmlookup (claude_pids (trace_exit (helpers_of ''claude'' True) 100 0 tracked_state)) 100 = None"
  using trace_exit_idempotent [of "helpers_of ''claude'' False" 100 0 "helpers_of ''claude'' True" 0 tracked_state]
  by (simp add: trace_exit_def)

text \<open>
  C9: when the exiting process has an entry, the exit handler removes that entry
  (and no other), also when the ring buffer has no room; in that case no record is
  emitted, the socket map is untouched and only the dropped counter goes up by one.
\<close>

theorem trace_exit_unmarks:
  "fmlookup (claude_pids s) p = Some t \<Longrightarrow>
     claude_pids (trace_exit k p code s) = fmdrop p (claude_pids s)
   \<and> fmlookup (claude_pids (trace_exit k p code s)) p = None
   \<and> (\<not> ringbuf_reserve k \<longrightarrow>
        events (trace_exit k p code s) = events s
      \<and> socket_connections (trace_exit k p code s) = socket_connections s
      \<and> perf_counters (trace_exit k p code s) =
          (perf_counters s)(COUNTER_EVENTS_DROPPED := perf_counters s COUNTER_EVENTS_DROPPED + 1))"
  by (simp add: trace_exit_claude_pids trace_exit_dropped)

theorem trace_exit_unmarks_witness:
  "fmlookup (claude_pids tracked_state) 100 = Some 5000
   \<and> \<not> ringbuf_reserve (helpers_of ''claude'' False)
   \<and> fmlookup (claude_pids (trace_exit (helpers_of ''claude'' False) 100 0 tracked_state)) 100 = None
   \<and> events (trace_exit (helpers_of ''claude'' False) 100 0 tracked_state) = []
   \<and> perf_counters (trace_exit (helpers_of ''claude'' False) 100 0 tracked_state)
        COUNTER_EVENTS_DROPPED = 1"
  using trace_exit_unmarks [of tracked_state 100 5000 "helpers_of ''claude'' False" 0]
  by simp

section \<open>The scan for the blank\<close>

text \<open>
  What the scan returns follows from the first byte, from \<open>i\<close> on, that is a blank
  or cannot be read. Proofs by induction on the distance to that byte.
\<close>

lemma scan_space_found:
  assumes "i \<le> p" "p < limit" "int p < bound" "data (start + p) = Some SPACE"
    and "\<forall>q. i \<le> q \<and> q < p \<longrightarrow> (\<exists>c. data (start + q) = Some c \<and> c \<noteq> SPACE)"
    and "int p \<le> max_len - 1" "p \<le> length out"
  shows "scan_space data start limit bound max_len i out =
           (Space p, take i out @ map (\<lambda>q. the (data (start + q))) [i..<p] @ drop p out)"
  using assms
proof (induction "p - i" arbitrary: i out)
  case 0
  then have "i = p" by simp
  with 0 show ?case by (subst scan_space.simps) simp
next
  case (Suc n)
  then have lt: "i < p" by simp
  with Suc.prems obtain c where c: "data (start + i) = Some c" "c \<noteq> SPACE" by auto
  have ih: "scan_space data start limit bound max_len (Suc i) (out[i := c]) =
      (Space p, take (Suc i) (out[i := c]) @ map (\<lambda>q. the (data (start + q))) [Suc i..<p]
                @ drop p (out[i := c]))"
    using Suc.hyps(2) Suc.prems lt by (intro Suc.hyps(1)) auto
  have t: "take (Suc i) (out[i := c]) = take i out @ [c]"
    using lt Suc.prems(7) by (simp add: take_Suc_conv_app_nth)
  have d: "drop p (out[i := c]) = drop p out" using lt by simp
  have u: "[i..<p] = i # [Suc i..<p]" using lt by (simp add: upt_conv_Cons)
  have copy: "int i < max_len - 1" using lt Suc.prems(6) by simp
  show ?case
    using lt Suc.prems(2,3) c copy
    by (subst scan_space.simps) (simp add: ih t d u)
qed

lemma scan_space_fault:
  assumes "i \<le> p" "p < limit" "int p < bound" "data (start + p) = None"
    and "\<forall>q. i \<le> q \<and> q < p \<longrightarrow> (\<exists>c. data (start + q) = Some c \<and> c \<noteq> SPACE)"
  shows "fst (scan_space data start limit bound max_len i out) = ReadFault"
  using assms
proof (induction "p - i" arbitrary: i out)
  case 0
  then have "i = p" by simp
  with 0 show ?case by (subst scan_space.simps) simp
next
  case (Suc n)
  then have lt: "i < p" by simp
  with Suc.prems obtain c where c: "data (start + i) = Some c" "c \<noteq> SPACE" by auto
  have ih: "fst (scan_space data start limit bound max_len (i + 1)
                  (if int i < max_len - 1 then out[i := c] else out)) = ReadFault"
    using Suc.hyps(2) Suc.prems lt by (intro Suc.hyps(1)) auto
  show ?case
    using lt Suc.prems(2,3) c ih
    by (subst scan_space.simps) simp
qed

lemma scan_space_none:
  assumes "\<forall>q. i \<le> q \<and> q < limit \<and> int q < bound \<longrightarrow> (\<exists>c. data (start + q) = Some c \<and> c \<noteq> SPACE)"
  shows "fst (scan_space data start limit bound max_len i out) = NoSpace"
  using assms
proof (induction "limit - i" arbitrary: i out)
  case 0
  then show ?case by (subst scan_space.simps) simp
next
  case (Suc n)
  show ?case
  proof (cases "i < limit \<and> int i < bound")
    case False
    then show ?thesis by (subst scan_space.simps) auto
  next
    case True
    with Suc.prems obtain c where c: "data (start + i) = Some c" "c \<noteq> SPACE" by auto
    have ih: "fst (scan_space data start limit bound max_len (i + 1)
                  (if int i < max_len - 1 then out[i := c] else out)) = NoSpace"
      using Suc.hyps(2) Suc.prems by (intro Suc.hyps(1)) auto
    show ?thesis using True c ih by (subst scan_space.simps) simp
  qed
qed

lemma scan_space_SpaceD:
  "fst (scan_space data start limit bound max_len i out) = Space p \<Longrightarrow>
     i \<le> p \<and> p < limit \<and> int p < bound \<and> data (start + p) = Some SPACE
     \<and> (\<forall>q. i \<le> q \<and> q < p \<longrightarrow> (\<exists>c. data (start + q) = Some c \<and> c \<noteq> SPACE))"
proof (induction data start limit bound max_len i out rule: scan_space.induct)
  case (1 data start limit bound max_len i out)
  show ?case
  proof (cases "i < limit \<and> int i < bound")
    case False
    with "1.prems" show ?thesis by (subst (asm) scan_space.simps) auto
  next
    case True
    show ?thesis
    proof (cases "data (start + i)")
      case None
      with True "1.prems" show ?thesis by (subst (asm) scan_space.simps) auto
    next
      case (Some c)
      show ?thesis
      proof (cases "c = SPACE")
        case True
        with \<open>i < limit \<and> int i < bound\<close> Some "1.prems" show ?thesis
          by (subst (asm) scan_space.simps) auto
      next
        case False
        with \<open>i < limit \<and> int i < bound\<close> Some "1.prems"
        have "fst (scan_space data start limit bound max_len (i + 1)
                  (if int i < max_len - 1 then out[i := c] else out)) = Space p"
          by (subst (asm) scan_space.simps) auto
        from "1.IH" [OF \<open>i < limit \<and> int i < bound\<close> Some False this]
        have *: "i + 1 \<le> p \<and> p < limit \<and> int p < bound \<and> data (start + p) = Some SPACE
             \<and> (\<forall>q. i + 1 \<le> q \<and> q < p \<longrightarrow> (\<exists>c. data (start + q) = Some c \<and> c \<noteq> SPACE))" .
        have "\<exists>c. data (start + q) = Some c \<and> c \<noteq> SPACE" if "i \<le> q" "q < p" for q
        proof (cases "q = i")
          case True then show ?thesis using Some False by simp
        next
          case False then show ?thesis using * that by auto
        qed
        with * show ?thesis by auto
      qed
    qed
  qed
qed

lemma no_space_iff:
  "no_space data start n = (\<forall>q<n. \<exists>c. data (start + q) = Some c \<and> c \<noteq> SPACE)"
  unfolding no_space_def list_all_iff
  by (simp split: option.split) (metis atLeastLessThan_iff le0 option.distinct(1) option.inject option.exhaust)

lemma bytes_at_length [simp]: "length (bytes_at data start n) = n"
  by (simp add: bytes_at_def)

lemma terminate_token:
  assumes "length xs = p" "p < length out"
  shows "(xs @ drop p out)[p := NUL] = xs @ NUL # drop (Suc p) out"
proof -
  have "drop p out = out ! p # drop (Suc p) out"
    using assms(2) by (simp add: Cons_nth_drop_Suc)
  then show ?thesis using assms(1) by (simp add: list_update_append)
qed

lemma parse_http_method_found:
  assumes "8 \<le> data_len" "p < 8" "data p = Some SPACE" "no_space data 0 p" "length out = 8"
  shows "parse_http_method data data_len out 8 = (int p, bytes_at data 0 p @ NUL # drop (Suc p) out)"
proof -
  have "scan_space data 0 MAX_HTTP_METHOD_LEN data_len 8 0 out =
          (Space p, take 0 out @ map (\<lambda>q. the (data (0 + q))) [0..<p] @ drop p out)"
    using assms by (intro scan_space_found) (auto simp: MAX_HTTP_METHOD_LEN_def no_space_iff)
  then have scan: "scan_space data 0 MAX_HTTP_METHOD_LEN data_len 8 0 out =
                     (Space p, bytes_at data 0 p @ drop p out)"
    by (simp add: bytes_at_def)
  show ?thesis
    using assms(1,2,5) by (simp add: parse_http_method_def scan terminate_token)
qed

lemma parse_http_method_fault:
  assumes "p < 8" "int p < data_len" "data p = None" "no_space data 0 p"
  shows "fst (parse_http_method data data_len out max_len) = -1"
proof (cases "data_len < 8 \<or> max_len < 8")
  case True
  then show ?thesis by (auto simp add: parse_http_method_def)
next
  case False
  have "fst (scan_space data 0 MAX_HTTP_METHOD_LEN data_len max_len 0 out) = ReadFault"
    using assms by (intro scan_space_fault [where p = p]) (auto simp: MAX_HTTP_METHOD_LEN_def no_space_iff)
  then show ?thesis
    using False by (auto simp add: parse_http_method_def split: prod.splits scan.splits)
qed

lemma scan_space_found_fst:
  assumes "i \<le> p" "p < limit" "int p < bound" "data (start + p) = Some SPACE"
    and "\<forall>q. i \<le> q \<and> q < p \<longrightarrow> (\<exists>c. data (start + q) = Some c \<and> c \<noteq> SPACE)"
  shows "fst (scan_space data start limit bound max_len i out) = Space p"
  using assms
proof (induction "p - i" arbitrary: i out)
  case 0
  then have "i = p" by simp
  with 0 show ?case by (subst scan_space.simps) simp
next
  case (Suc n)
  then have lt: "i < p" by simp
  with Suc.prems obtain c where c: "data (start + i) = Some c" "c \<noteq> SPACE" by auto
  have ih: "fst (scan_space data start limit bound max_len (i + 1)
                  (if int i < max_len - 1 then out[i := c] else out)) = Space p"
    using Suc.hyps(2) Suc.prems lt by (intro Suc.hyps(1)) auto
  show ?case
    using lt Suc.prems(2,3) c ih
    by (subst scan_space.simps) simp
qed

lemma parse_http_method_success_iff:
  "(fst (parse_http_method data data_len out 8) \<noteq> -1) =
     (8 \<le> data_len \<and> (\<exists>p<8. data p = Some SPACE \<and> no_space data 0 p))"
proof
  assume ok: "fst (parse_http_method data data_len out 8) \<noteq> -1"
  then have len: "8 \<le> data_len" by (auto simp: parse_http_method_def split: if_splits)
  from ok len obtain p where "fst (scan_space data 0 MAX_HTTP_METHOD_LEN data_len 8 0 out) = Space p"
    by (auto simp: parse_http_method_def split: if_splits prod.splits scan.splits)
  from scan_space_SpaceD [OF this]
  have "p < 8 \<and> data p = Some SPACE \<and> no_space data 0 p"
    by (auto simp: MAX_HTTP_METHOD_LEN_def no_space_iff)
  with len show "8 \<le> data_len \<and> (\<exists>p<8. data p = Some SPACE \<and> no_space data 0 p)" by blast
next
  assume "8 \<le> data_len \<and> (\<exists>p<8. data p = Some SPACE \<and> no_space data 0 p)"
  then obtain p where p: "8 \<le> data_len" "p < 8" "data p = Some SPACE" "no_space data 0 p" by blast
  have "fst (scan_space data 0 MAX_HTTP_METHOD_LEN data_len 8 0 out) = Space p"
    using p by (intro scan_space_found_fst) (auto simp: MAX_HTTP_METHOD_LEN_def no_space_iff)
  then show "fst (parse_http_method data data_len out 8) \<noteq> -1"
    using p by (auto simp: parse_http_method_def split: prod.splits)
qed

section \<open>Method extraction (C6)\<close>

text \<open>
  C6, as the code has it. \<open>parse_http_method\<close> with an output of capacity 8 succeeds
  exactly when the length is at least 8 and, among the first 8 bytes, a blank is
  reached before any byte that cannot be read; it then returns the index of that
  blank, with the bytes before it copied to the output and a terminator behind them.
  It fails for every length below 8, when a byte before the first blank cannot be
  read, and when the first 8 bytes hold no blank. (With capacity 8 the test
  \<open>space_pos >= max_len\<close> never fires.)
\<close>

theorem parse_http_method_contract:
  "((fst (parse_http_method data data_len out 8) \<noteq> -1) =
      (8 \<le> data_len \<and> (\<exists>p<8. data p = Some SPACE \<and> no_space data 0 p)))
   \<and> (\<forall>p<8. 8 \<le> data_len \<and> data p = Some SPACE \<and> no_space data 0 p \<and> length out = 8 \<longrightarrow>
         parse_http_method data data_len out 8 =
           (int p, bytes_at data 0 p @ NUL # drop (Suc p) out))"
  using parse_http_method_success_iff parse_http_method_found by blast

theorem parse_http_method_contract_witness:
  "(8::int) \<le> 16 \<and> mem_of ''POST /v1/messages'' 4 = Some SPACE
   \<and> no_space (mem_of ''POST /v1/messages'') 0 4
   \<and> parse_http_method (mem_of ''POST /v1/messages'') 17 (replicate 8 NUL) 8 =
       (4, ''POST'' @ replicate 4 NUL)
   \<and> fst (parse_http_method (mem_of ''POSTPOSTPOST'') 12 (replicate 8 NUL) 8) = -1"
proof -
  have a: "mem_of ''POST /v1/messages'' 4 = Some SPACE" by (simp add: mem_of_def SPACE_def)
  have b: "no_space (mem_of ''POST /v1/messages'') 0 4"
    by (simp add: no_space_def mem_of_def SPACE_def upt_rec)
  have c: "\<not> (\<exists>p<8. mem_of ''POSTPOSTPOST'' p = Some SPACE \<and> no_space (mem_of ''POSTPOSTPOST'') 0 p)"
    by (auto simp: mem_of_def SPACE_def nth_Cons' less_Suc_eq numeral_eq_Suc)
  have d: "bytes_at (mem_of ''POST /v1/messages'') 0 4 = ''POST''"
    by (simp add: bytes_at_def mem_of_def upt_rec)
  from parse_http_method_contract
         [of "mem_of ''POST /v1/messages''" 17 "replicate 8 NUL", THEN conjunct2, rule_format, of 4] a b
  have "parse_http_method (mem_of ''POST /v1/messages'') 17 (replicate 8 NUL) 8 =
       (4, bytes_at (mem_of ''POST /v1/messages'') 0 4 @ NUL # drop 5 (replicate 8 NUL))"
    by simp
  moreover from parse_http_method_contract [of "mem_of ''POSTPOSTPOST''" 12 "replicate 8 NUL"] c
  have "fst (parse_http_method (mem_of ''POSTPOSTPOST'') 12 (replicate 8 NUL) 8) = -1"
    by auto
  ultimately show ?thesis using a b d by (simp add: numeral_eq_Suc)
qed


text \<open>
  C6 as stated fails for a buffer shorter than 8 bytes: \<open>GET / \<close> has its blank at
  index 3, within \<open>min(8, 6)\<close>, and the call fails all the same.
\<close>

theorem parse_http_method_short_buffer:
  "mem_of ''GET / '' 3 = Some SPACE \<and> (3::nat) < min 8 6
   \<and> no_space (mem_of ''GET / '') 0 3
   \<and> fst (parse_http_method (mem_of ''GET / '') 6 (replicate 8 NUL) 8) = -1"
  by (simp add: parse_http_method_def mem_of_def SPACE_def no_space_def upt_rec)

section \<open>URI extraction and the write handler\<close>

lemma parse_http_uri_found:
  assumes "1 \<le> n" "n < 128" "int (m + 1 + n) < data_len" "data (m + 1 + n) = Some SPACE"
    and "no_space data (m + 1) n" "length out = 128"
  shows "parse_http_uri data data_len (int m) out 128 =
           (int n, bytes_at data (m + 1) n @ NUL # drop (Suc n) out)"
proof -
  have "scan_space data (m + 1) MAX_HTTP_URI_LEN (data_len - int m - 1) 128 0 out =
          (Space n, take 0 out @ map (\<lambda>q. the (data (m + 1 + q))) [0..<n] @ drop n out)"
    using assms by (intro scan_space_found) (auto simp: MAX_HTTP_URI_LEN_def no_space_iff)
  then have scan: "scan_space data (Suc m) MAX_HTTP_URI_LEN (data_len - int m - 1) 128 0 out =
                     (Space n, bytes_at data (m + 1) n @ drop n out)"
    by (simp add: bytes_at_def)
  have start: "nat (int m + 1) = Suc m" by simp
  show ?thesis
    using assms(1,2,3,6) by (simp add: parse_http_uri_def start scan terminate_token Let_def)
qed

lemma parse_http_uri_fault:
  assumes "n < 128" "int (m + 1 + n) < data_len" "data (m + 1 + n) = None"
    and "no_space data (m + 1) n"
  shows "fst (parse_http_uri data data_len (int m) out max_len) = -1"
proof -
  have "fst (scan_space data (m + 1) MAX_HTTP_URI_LEN (data_len - int m - 1) max_len 0 out) = ReadFault"
    using assms by (intro scan_space_fault [where p = n]) (auto simp: MAX_HTTP_URI_LEN_def no_space_iff)
  moreover have start: "nat (int m + 1) = Suc m" by simp
  ultimately show ?thesis
    by (auto simp add: parse_http_uri_def Let_def split: prod.splits scan.splits)
qed

lemma terminated_zero:
  "p < n \<Longrightarrow> NUL # drop (Suc p) (replicate n NUL) = replicate (n - p) NUL"
  by (metis Suc_diff_Suc drop_replicate replicate_Suc)

lemma gate_count:
  fixes count :: u64
  assumes "16 \<le> count" "count \<le> 512"
  shows "\<not> (count < 16 \<or> count > of_nat HTTP_HEADER_SIZE)" and "16 \<le> uint count" and "uint count \<le> 512"
  using assms by (simp_all add: HTTP_HEADER_SIZE_def word_le_def not_less)

lemma trace_write_parsed:
  assumes "fmlookup (claude_pids s) (current_pid k) = Some t"
    and "fmlookup (socket_connections s) (ucast fd_arg) = Some sock_info"
    and "16 \<le> count" "count \<le> 512"
    and "parse_http_method buf (uint count) (replicate 8 NUL) 8 = (method_len, method)"
    and "3 \<le> method_len"
    and "parse_http_uri buf (uint count) method_len (replicate 128 NUL) 128 = (uri_len, uri)"
    and "1 \<le> uri_len"
  shows "trace_write k fd_arg buf count s =
     (if ringbuf_reserve k
      then increment_counter COUNTER_EVENTS_PROCESSED
             (bpf_ringbuf_submit
                (http_request_event k sock_info (ucast fd_arg) method uri
                   (parse_content_length buf (uint count)))
                (increment_counter COUNTER_HTTP_REQUESTS s))
      else increment_counter COUNTER_EVENTS_DROPPED (increment_counter COUNTER_HTTP_REQUESTS s))"
  using assms gate_count(1) [OF assms(3,4)]
  by (simp add: trace_write_def Let_def MAX_HTTP_METHOD_LEN_def MAX_HTTP_URI_LEN_def
      http_request_event_def zero_event_def MAX_COMM_LEN_def MAX_PATH_LEN_def)

lemma trace_write_short_method:
  assumes "parse_http_method buf (uint count) (replicate 8 NUL) 8 = (method_len, method)"
    and "method_len < 3"
  shows "trace_write k fd_arg buf count s = s"
  using assms
  by (simp add: trace_write_def Let_def MAX_HTTP_METHOD_LEN_def split: option.splits)

lemma trace_write_no_uri:
  assumes "parse_http_method buf (uint count) (replicate 8 NUL) 8 = (method_len, method)"
    and "fst (parse_http_uri buf (uint count) method_len (replicate 128 NUL) 128) < 1"
  shows "trace_write k fd_arg buf count s = s"
proof -
  obtain uri_len uri where
    u: "parse_http_uri buf (uint count) method_len (replicate 128 NUL) 128 = (uri_len, uri)"
    by (cases "parse_http_uri buf (uint count) method_len (replicate 128 NUL) 128")
  with assms(2) have "uri_len < 1" by simp
  with assms(1) u show ?thesis
    by (simp add: trace_write_def Let_def MAX_HTTP_METHOD_LEN_def MAX_HTTP_URI_LEN_def
        split: option.splits)
qed

lemma correlated_state_simps [simp]:
  "events correlated_state = []"
  "claude_pids correlated_state = fmupd 100 5000 fmempty"
  "socket_connections correlated_state = fmupd 3 sample_socket fmempty"
  "perf_counters correlated_state c = 0"
  by (simp_all add: correlated_state_def)

text \<open>The sample requests, evaluated.\<close>

lemma uint_u64_numeral [simp]: "uint (49 :: u64) = 49" "uint (27 :: u64) = 27" "uint (64 :: u64) = 64"
  by simp_all

lemma http_request_method:
  "parse_http_method (mem_of http_request) 49 (replicate 8 NUL) 8 = (3, ''GET'' @ replicate 5 NUL)"
  by code_simp

lemma short_method_request_method: "parse_http_method (mem_of short_method_request) 27 (replicate 8 NUL) 8 = (2, ''AB'' @ replicate 6 NUL)"
  by code_simp

lemma short_method_request_uri: "fst (parse_http_uri (mem_of short_method_request) 27 2 (replicate 128 NUL) 128) = 11"
  by code_simp

lemma http_request_length: "length http_request = 49" by (simp add: http_request_def CRLF_def)

lemma http_request_content_length: "parse_content_length (mem_of http_request) 49 = 42"
  by code_simp

lemma http_request_no_space_method: "no_space (mem_of http_request) 0 3" by code_simp
lemma http_request_no_space_uri: "no_space (mem_of http_request) 4 12" by code_simp
lemma http_request_bytes_method: "bytes_at (mem_of http_request) 0 3 = ''GET''" by code_simp
lemma http_request_bytes_uri: "bytes_at (mem_of http_request) 4 12 = ''/v1/messages''" by code_simp
lemma http_request_space_method: "mem_of http_request 3 = Some SPACE" by code_simp
lemma http_request_space_uri: "mem_of http_request 16 = Some SPACE" by code_simp

section \<open>Emission of HTTP records (C2)\<close>

text \<open>
  C2, as the code has it. A write passes the gate when its process is tracked, its
  descriptor has a socket entry and its length is between 16 and 512. If then the
  method ends at a blank at index \<open>p\<close> with \<open>3 \<le> p < 8\<close> (the handler drops methods
  shorter than three bytes) and the URI behind it ends at a blank within its first 128
  bytes and within the buffer, after at least one byte, all bytes up to there
  readable, then the handler counts the request and, when the ring buffer has room,
  emits one HTTP\_REQUEST record with the method, the URI, the content length the
  parser returns and the destination of the socket entry; without room it counts a
  drop and emits nothing. The maps are not changed.
\<close>

theorem trace_write_emits:
  assumes "fmlookup (claude_pids s) (current_pid k) = Some t"
    and "fmlookup (socket_connections s) (ucast fd_arg) = Some sock_info"
    and "16 \<le> count" "count \<le> 512"
    and "3 \<le> p" "p < 8" "buf p = Some SPACE" "no_space buf 0 p"
    and "1 \<le> n" "n < 128" "int (p + 1 + n) < uint count" "buf (p + 1 + n) = Some SPACE"
    and "no_space buf (p + 1) n"
  shows "events (trace_write k fd_arg buf count s) =
           (if ringbuf_reserve k
            then events s @
                 [http_request_event k sock_info (ucast fd_arg)
                    (bytes_at buf 0 p @ replicate (8 - p) NUL)
                    (bytes_at buf (p + 1) n @ replicate (128 - n) NUL)
                    (parse_content_length buf (uint count))]
            else events s)
         \<and> claude_pids (trace_write k fd_arg buf count s) = claude_pids s
         \<and> socket_connections (trace_write k fd_arg buf count s) = socket_connections s
         \<and> perf_counters (trace_write k fd_arg buf count s) =
             (perf_counters s)
               (COUNTER_HTTP_REQUESTS := perf_counters s COUNTER_HTTP_REQUESTS + 1,
                (if ringbuf_reserve k then COUNTER_EVENTS_PROCESSED else COUNTER_EVENTS_DROPPED) :=
                  perf_counters s
                    (if ringbuf_reserve k then COUNTER_EVENTS_PROCESSED else COUNTER_EVENTS_DROPPED) + 1)"
proof -
  have len: "8 \<le> uint count" using gate_count(2) [OF assms(3,4)] by simp
  have m: "parse_http_method buf (uint count) (replicate 8 NUL) 8 =
             (int p, bytes_at buf 0 p @ replicate (8 - p) NUL)"
    using parse_http_method_found [OF len assms(6,7,8), of "replicate 8 NUL"]
    unfolding terminated_zero [OF assms(6)] by simp
  have u: "parse_http_uri buf (uint count) (int p) (replicate 128 NUL) 128 =
             (int n, bytes_at buf (p + 1) n @ replicate (128 - n) NUL)"
    using parse_http_uri_found [OF assms(9,10,11,12,13), of "replicate 128 NUL"]
    unfolding terminated_zero [OF assms(10)] by simp
  have "trace_write k fd_arg buf count s =
     (if ringbuf_reserve k
      then increment_counter COUNTER_EVENTS_PROCESSED
             (bpf_ringbuf_submit
                (http_request_event k sock_info (ucast fd_arg)
                   (bytes_at buf 0 p @ replicate (8 - p) NUL)
                   (bytes_at buf (p + 1) n @ replicate (128 - n) NUL)
                   (parse_content_length buf (uint count)))
                (increment_counter COUNTER_HTTP_REQUESTS s))
      else increment_counter COUNTER_EVENTS_DROPPED (increment_counter COUNTER_HTTP_REQUESTS s))"
    using assms(5,9) by (intro trace_write_parsed [OF assms(1,2,3,4) m _ u]) auto
  then show ?thesis by (auto simp: fun_eq_iff)
qed

theorem trace_write_emits_witness:
  "fmlookup (claude_pids correlated_state) (current_pid (helpers_of ''claude'' True)) = Some 5000
   \<and> fmlookup (socket_connections correlated_state) (ucast (3 :: u64)) = Some sample_socket
   \<and> (16 :: u64) \<le> 49 \<and> (49 :: u64) \<le> 512
   \<and> mem_of http_request 3 = Some SPACE \<and> no_space (mem_of http_request) 0 3
   \<and> mem_of http_request 16 = Some SPACE \<and> no_space (mem_of http_request) 4 12
   \<and> events (trace_write (helpers_of ''claude'' True) 3 (mem_of http_request) 49 correlated_state) =
       [http_request_event (helpers_of ''claude'' True) sample_socket 3
          (''GET'' @ replicate 5 NUL) (''/v1/messages'' @ replicate 116 NUL) 42]
   \<and> perf_counters (trace_write (helpers_of ''claude'' True) 3 (mem_of http_request) 49 correlated_state)
        COUNTER_HTTP_REQUESTS = 1"
  using trace_write_emits [of correlated_state "helpers_of ''claude'' True" 5000 3 sample_socket 49 3
      "mem_of http_request" 12]
    http_request_no_space_method http_request_no_space_uri http_request_space_method http_request_space_uri
  by (simp add: http_request_bytes_method http_request_bytes_uri http_request_content_length)

text \<open>
  C2 as stated fails for a method of fewer than three bytes: in
  \<open>AB /index.html HTTP/1.1\<close> both extractions succeed (method length 2, URI length
  11), the gate is passed and the ring buffer has room, yet the handler returns
  without a record and without touching a counter.
\<close>

theorem trace_write_drops_short_method:
  "fmlookup (claude_pids correlated_state) (current_pid (helpers_of ''claude'' True)) = Some 5000
   \<and> fmlookup (socket_connections correlated_state) (ucast (3 :: u64)) = Some sample_socket
   \<and> (16 :: u64) \<le> 27 \<and> (27 :: u64) \<le> 512
   \<and> fst (parse_http_method (mem_of short_method_request) (uint (27 :: u64)) (replicate 8 NUL) 8) = 2
   \<and> fst (parse_http_uri (mem_of short_method_request) (uint (27 :: u64)) 2 (replicate 128 NUL) 128) = 11
   \<and> ringbuf_reserve (helpers_of ''claude'' True)
   \<and> trace_write (helpers_of ''claude'' True) 3 (mem_of short_method_request) 27 correlated_state
       = correlated_state"
  using short_method_request_method short_method_request_uri trace_write_short_method [of "mem_of short_method_request" 27 2 "''AB'' @ replicate 6 NUL"]
  by simp

section \<open>The parsers stay inside the buffer\<close>

text \<open>
  Two memories that agree below \<open>data_len\<close> give the same results: no loop reads at
  or behind that offset.
\<close>

lemma http_request_uri:
  "parse_http_uri (mem_of http_request) 49 3 (replicate 128 NUL) 128 =
     (12, ''/v1/messages'' @ replicate 116 NUL)"
  by code_simp

lemma scan_space_cong:
  assumes "\<forall>q. int q < bound \<longrightarrow> data (start + q) = data' (start + q)"
  shows "scan_space data start limit bound max_len i out =
         scan_space data' start limit bound max_len i out"
  using assms
proof (induction "limit - i" arbitrary: i out)
  case 0
  then show ?case by (simp add: scan_space.simps [of _ _ limit _ _ i])
next
  case (Suc n)
  have ih: "scan_space data start limit bound max_len (i + 1) out' =
            scan_space data' start limit bound max_len (i + 1) out'" for out'
    using Suc.hyps(2) Suc.prems by (intro Suc.hyps(1)) auto
  show ?case
  proof (cases "i < limit \<and> int i < bound")
    case False
    then show ?thesis by (auto simp add: scan_space.simps [of _ _ limit _ _ i])
  next
    case True
    with Suc.prems have "data (start + i) = data' (start + i)" by simp
    with True ih show ?thesis
      by (simp add: scan_space.simps [of _ _ limit _ _ i] split: option.splits)
  qed
qed

lemma match_header_cong:
  assumes "\<forall>j<16. data (i + j) = data' (i + j)"
  shows "match_header data i j = match_header data' i j"
proof (induction "16 - j" arbitrary: j)
  case 0
  then show ?case by (simp add: match_header.simps [of _ i j] cl_header_len_def)
next
  case (Suc n)
  then have j: "j < 16" by simp
  have ih: "match_header data i (j + 1) = match_header data' i (j + 1)"
    using Suc.hyps(2) by (intro Suc.hyps(1)) auto
  from assms j have "data (i + j) = data' (i + j)" by simp
  with ih show ?case
    by (simp add: match_header.simps [of _ i j] split: option.splits)
qed

lemma accumulate_digits_cong:
  assumes "\<forall>q. int q < data_len \<longrightarrow> data q = data' q"
  shows "accumulate_digits data data_len start_pos k content_len =
         accumulate_digits data' data_len start_pos k content_len"
proof (induction "10 - k" arbitrary: k content_len)
  case 0
  then show ?case by (simp add: accumulate_digits.simps [of _ data_len start_pos k])
next
  case (Suc n)
  have ih: "accumulate_digits data data_len start_pos (k + 1) c' =
            accumulate_digits data' data_len start_pos (k + 1) c'" for c'
    using Suc.hyps(2) by (intro Suc.hyps(1)) auto
  show ?case
  proof (cases "int (start_pos + k) < data_len")
    case False
    then show ?thesis by (simp add: accumulate_digits.simps [of _ data_len start_pos k])
  next
    case True
    with assms have "data (start_pos + k) = data' (start_pos + k)" by blast
    with ih show ?thesis
      by (simp add: accumulate_digits.simps [of _ data_len start_pos k] split: option.splits)
  qed
qed

lemma search_header_cong:
  assumes "\<forall>q. int q < data_len \<longrightarrow> data q = data' q"
  shows "search_header data data_len i = search_header data' data_len i"
proof (induction "HTTP_HEADER_SIZE - i" arbitrary: i)
  case 0
  then show ?case by (simp add: search_header.simps [of _ data_len i])
next
  case (Suc n)
  have ih: "search_header data data_len (i + 1) = search_header data' data_len (i + 1)"
    using Suc.hyps(2) by (intro Suc.hyps(1)) auto
  show ?case
  proof (cases "int i < data_len - int cl_header_len")
    case False
    then show ?thesis by (simp add: search_header.simps [of _ data_len i])
  next
    case True
    then have "\<forall>j<16. data (i + j) = data' (i + j)"
      using assms by (auto simp: cl_header_len_def)
    then have m: "match_header data i 0 = match_header data' i 0"
      by (rule match_header_cong)
    show ?thesis
      using m ih accumulate_digits_cong [OF assms]
      by (simp add: search_header.simps [of _ data_len i] split: hdr.splits)
  qed
qed

lemma parse_http_method_cong:
  assumes "\<forall>q. int q < data_len \<longrightarrow> data q = data' q"
  shows "parse_http_method data data_len out max_len = parse_http_method data' data_len out max_len"
proof -
  have "scan_space data 0 MAX_HTTP_METHOD_LEN data_len max_len 0 out =
        scan_space data' 0 MAX_HTTP_METHOD_LEN data_len max_len 0 out"
    using assms by (intro scan_space_cong) simp
  then show ?thesis by (simp add: parse_http_method_def)
qed

lemma parse_http_uri_cong:
  assumes "\<forall>q. int q < data_len \<longrightarrow> data q = data' q" "0 \<le> method_len"
  shows "parse_http_uri data data_len method_len out max_len =
         parse_http_uri data' data_len method_len out max_len"
proof -
  have "scan_space data (nat (method_len + 1)) MAX_HTTP_URI_LEN (data_len - method_len - 1) max_len 0 out =
        scan_space data' (nat (method_len + 1)) MAX_HTTP_URI_LEN (data_len - method_len - 1) max_len 0 out"
    using assms by (intro scan_space_cong) auto
  then show ?thesis by (simp add: parse_http_uri_def Let_def)
qed

lemma parse_content_length_cong:
  assumes "\<forall>q. int q < data_len \<longrightarrow> data q = data' q"
  shows "parse_content_length data data_len = parse_content_length data' data_len"
  by (simp add: parse_content_length_def search_header_cong [OF assms])

lemma mem_of_agree:
  assumes "\<forall>i<length xs. buf i = Some (xs ! i)"
  shows "\<forall>q. int q < int (length xs) \<longrightarrow> buf q = mem_of xs q"
  using assms by (simp add: mem_of_def)

section \<open>The example request (C3)\<close>

text \<open>
  C3, as the code has it. For a write of the 49 bytes
  \<open>GET /v1/messages HTTP/1.1\r\nContent-Length: 42\r\n\r\n\<close> (whatever lies behind
  them in memory) by a tracked process on a descriptor with a socket entry, the
  parser yields the method \<open>GET\<close>, the URI \<open>/v1/messages\<close> and the content length
  42; and when the ring buffer has room, the handler emits one HTTP\_REQUEST record
  with these three fields and the address and port of the socket entry.
\<close>

theorem trace_write_example_request:
  assumes "fmlookup (claude_pids s) (current_pid k) = Some t"
    and "fmlookup (socket_connections s) (ucast fd_arg) = Some sock_info"
    and "\<forall>i<49. buf i = Some (http_request ! i)"
    and "ringbuf_reserve k"
  shows "parse_http_method buf 49 (replicate 8 NUL) 8 = (3, ''GET'' @ replicate 5 NUL)
         \<and> parse_http_uri buf 49 3 (replicate 128 NUL) 128 = (12, ''/v1/messages'' @ replicate 116 NUL)
         \<and> parse_content_length buf 49 = 42
         \<and> events (trace_write k fd_arg buf 49 s) =
             events s @
             [http_request_event k sock_info (ucast fd_arg)
                (''GET'' @ replicate 5 NUL) (''/v1/messages'' @ replicate 116 NUL) 42]"
proof -
  have agree: "\<forall>q. int q < 49 \<longrightarrow> buf q = mem_of http_request q"
    using mem_of_agree [of http_request buf] assms(3) by (simp add: http_request_length)
  have m: "parse_http_method buf 49 (replicate 8 NUL) 8 = (3, ''GET'' @ replicate 5 NUL)"
    using parse_http_method_cong [OF agree] http_request_method by simp
  have u: "parse_http_uri buf 49 3 (replicate 128 NUL) 128 = (12, ''/v1/messages'' @ replicate 116 NUL)"
    using parse_http_uri_cong [OF agree, of 3] http_request_uri by simp
  have c: "parse_content_length buf 49 = 42"
    using parse_content_length_cong [OF agree] http_request_content_length by simp
  have "trace_write k fd_arg buf 49 s =
          increment_counter COUNTER_EVENTS_PROCESSED
             (bpf_ringbuf_submit
                (http_request_event k sock_info (ucast fd_arg)
                   (''GET'' @ replicate 5 NUL) (''/v1/messages'' @ replicate 116 NUL) 42)
                (increment_counter COUNTER_HTTP_REQUESTS s))"
    using trace_write_parsed [OF assms(1,2), of 49 buf 3 "''GET'' @ replicate 5 NUL" 12
        "''/v1/messages'' @ replicate 116 NUL"] m u c assms(4)
    by simp
  with m u c show ?thesis by simp
qed

theorem trace_write_example_request_witness:
  "fmlookup (claude_pids correlated_state) (current_pid (helpers_of ''claude'' True)) = Some 5000
   \<and> fmlookup (socket_connections correlated_state) (ucast (3 :: u64)) = Some sample_socket
   \<and> list_all (\<lambda>i. mem_of (http_request @ ''trailing bytes'') i = Some (http_request ! i)) [0..<49]
   \<and> ringbuf_reserve (helpers_of ''claude'' True)
   \<and> parse_content_length (mem_of (http_request @ ''trailing bytes'')) 49 = 42
   \<and> events (trace_write (helpers_of ''claude'' True) 3 (mem_of (http_request @ ''trailing bytes'')) 49
        correlated_state) =
       [http_request_event (helpers_of ''claude'' True) sample_socket 3
          (''GET'' @ replicate 5 NUL) (''/v1/messages'' @ replicate 116 NUL) 42]
   \<and> ev_target_addr (http_request_event (helpers_of ''claude'' True) sample_socket 3
          (''GET'' @ replicate 5 NUL) (''/v1/messages'' @ replicate 116 NUL) 42) = 0x0100007F
   \<and> ev_target_port (http_request_event (helpers_of ''claude'' True) sample_socket 3
          (''GET'' @ replicate 5 NUL) (''/v1/messages'' @ replicate 116 NUL) 42) = 443"
proof -
  have a: "\<forall>i<49. mem_of (http_request @ ''trailing bytes'') i = Some (http_request ! i)"
    by (simp add: mem_of_def http_request_length nth_append)
  then have b: "list_all (\<lambda>i. mem_of (http_request @ ''trailing bytes'') i = Some (http_request ! i)) [0..<49]"
    by (simp add: list_all_iff)
  show ?thesis
    using trace_write_example_request [of correlated_state "helpers_of ''claude'' True" 5000 3
        sample_socket "mem_of (http_request @ ''trailing bytes'')", OF _ _ a] b
    by (simp add: http_request_event_def sample_socket_def)
qed

text \<open>
  C3 as stated fails when the ring buffer has no room: for the same write the parser
  yields the same three values and no record is emitted.
\<close>

theorem trace_write_example_request_dropped:
  "fmlookup (claude_pids correlated_state) (current_pid (helpers_of ''claude'' False)) = Some 5000
   \<and> fmlookup (socket_connections correlated_state) (ucast (3 :: u64)) = Some sample_socket
   \<and> parse_http_method (mem_of http_request) 49 (replicate 8 NUL) 8 = (3, ''GET'' @ replicate 5 NUL)
   \<and> parse_http_uri (mem_of http_request) 49 3 (replicate 128 NUL) 128
        = (12, ''/v1/messages'' @ replicate 116 NUL)
   \<and> parse_content_length (mem_of http_request) 49 = 42
   \<and> events (trace_write (helpers_of ''claude'' False) 3 (mem_of http_request) 49 correlated_state) = []"
  using trace_write_parsed [of correlated_state "helpers_of ''claude'' False" 5000 3 sample_socket 49
      "mem_of http_request" 3 "''GET'' @ replicate 5 NUL" 12 "''/v1/messages'' @ replicate 116 NUL"]
    http_request_method http_request_uri http_request_content_length
  by simp

section \<open>The content-length accumulator (C7)\<close>

lemma match_header_all:
  assumes "\<forall>j'. j \<le> j' \<and> j' < 16 \<longrightarrow> data (i + j') = Some (cl_header ! j')"
  shows "match_header data i j = HdrMatch"
  using assms
proof (induction "16 - j" arbitrary: j)
  case 0
  then show ?case by (simp add: match_header.simps [of _ i j] cl_header_len_def)
next
  case (Suc n)
  then have j: "j < 16" by simp
  have ih: "match_header data i (j + 1) = HdrMatch"
    using Suc.hyps(2) Suc.prems by (intro Suc.hyps(1)) auto
  from Suc.prems j have "data (i + j) = Some (cl_header ! j)" by simp
  with ih show ?case by (simp add: match_header.simps [of _ i j])
qed

lemma digit_step:
  "foldl (\<lambda>a c. a * 10 + digit_val c) (of_nat n) ds =
     of_nat (foldl (\<lambda>n c. n * 10 + (of_char c - 48)) n ds)"
proof (induction ds arbitrary: n)
  case Nil
  show ?case by simp
next
  case (Cons c ds)
  have "(of_nat n :: u32) * 10 + digit_val c = of_nat (n * 10 + (of_char c - 48))"
    by (simp add: digit_val_def)
  then show ?case using Cons [of "n * 10 + (of_char c - 48)"] by simp
qed

lemma accumulate_digits_run:
  assumes "k \<le> length ds" "length ds \<le> 10" "\<forall>c\<in>set ds. is_digit c"
    and "\<forall>j<length ds. data (start_pos + j) = Some (ds ! j)"
    and "int (start_pos + length ds) \<le> data_len"
    and "length ds = 10 \<or> \<not> (int (start_pos + length ds) < data_len
           \<and> (\<exists>c. data (start_pos + length ds) = Some c \<and> is_digit c))"
  shows "fst (accumulate_digits data data_len start_pos k content_len) =
           foldl (\<lambda>a c. a * 10 + digit_val c) content_len (drop k ds)"
  using assms(1)
proof (induction "length ds - k" arbitrary: k content_len)
  case 0
  then have k: "k = length ds" by simp
  show ?case
    using assms(2,6) unfolding k
    by (subst accumulate_digits.simps) (auto split: option.splits)
next
  case (Suc n)
  then have k: "k < length ds" by simp
  with assms have rd: "data (start_pos + k) = Some (ds ! k)" and dg: "is_digit (ds ! k)"
    and bound: "k < 10" "int (start_pos + k) < data_len"
    by auto
  have ih: "fst (accumulate_digits data data_len start_pos (k + 1) (content_len * 10 + digit_val (ds ! k))) =
           foldl (\<lambda>a c. a * 10 + digit_val c) (content_len * 10 + digit_val (ds ! k)) (drop (k + 1) ds)"
    using Suc.hyps(2) k by (intro Suc.hyps(1)) auto
  have d: "drop k ds = ds ! k # drop (k + 1) ds" using k by (simp add: Cons_nth_drop_Suc)
  show ?case
    using rd dg bound ih
    by (subst accumulate_digits.simps) (simp add: d)
qed

lemma search_header_first_match:
  assumes "i0 \<le> i" "i < 512" "int (i + 16) < data_len"
    and "\<forall>i'. i0 \<le> i' \<and> i' < i \<longrightarrow> match_header data i' 0 = HdrMismatch"
    and "match_header data i 0 = HdrMatch"
  shows "search_header data data_len i0 =
           Parsed (fst (accumulate_digits data data_len (i + 16) 0 0))
                  (snd (accumulate_digits data data_len (i + 16) 0 0))"
  using assms(1,4)
proof (induction "i - i0" arbitrary: i0)
  case 0
  then have "i0 = i" by simp
  then show ?case
    using assms(2,3,5)
    by (subst search_header.simps)
       (simp add: HTTP_HEADER_SIZE_def cl_header_len_def split: prod.splits)
next
  case (Suc n)
  then have lt: "i0 < i" by simp
  with Suc.prems have mm: "match_header data i0 0 = HdrMismatch" by simp
  have ih: "search_header data data_len (i0 + 1) =
           Parsed (fst (accumulate_digits data data_len (i + 16) 0 0))
                  (snd (accumulate_digits data data_len (i + 16) 0 0))"
    using Suc.hyps(2) Suc.prems lt by (intro Suc.hyps(1)) auto
  show ?case
    using lt assms(2,3) mm ih
    by (subst search_header.simps) (simp add: HTTP_HEADER_SIZE_def cl_header_len_def)
qed

lemma eleven_header: "list_all (\<lambda>j. mem_of eleven_digits j = Some (cl_header ! j)) [0..<16]"
  by code_simp

lemma eleven_digits_read:
  "list_all (\<lambda>j. mem_of eleven_digits (16 + j) = Some (''0000000042'' ! j)) [0..<10]"
  by code_simp

lemma request_mismatches:
  "list_all (\<lambda>i. match_header (mem_of http_request) i 0 = HdrMismatch) [0..<27]"
  by code_simp

lemma request_header: "list_all (\<lambda>j. mem_of http_request (27 + j) = Some (cl_header ! j)) [0..<16]"
  by code_simp

text \<open>
  C7. Behind the header literal the ten digits \<open>0000000042\<close> give 42. In general,
  where the header is first found at offset \<open>i\<close> and \<open>ds\<close> is the run of digits
  behind it, cut at ten digits or ended by a byte that is no readable digit inside
  the buffer, the result is the number \<open>ds\<close> denotes (modulo \<open>2^32\<close>): an
  eleventh digit, like every later byte, has no influence.
\<close>

theorem content_length_ten_digit_cap:
  assumes "i < 512" "int (i + 16) < data_len"
    and "\<forall>i'<i. match_header data i' 0 = HdrMismatch"
    and "\<forall>j<16. data (i + j) = Some (cl_header ! j)"
    and "length ds \<le> 10" "\<forall>c\<in>set ds. is_digit c"
    and "\<forall>j<length ds. data (i + 16 + j) = Some (ds ! j)"
    and "int (i + 16 + length ds) \<le> data_len"
    and "length ds = 10 \<or> \<not> (int (i + 16 + length ds) < data_len
           \<and> (\<exists>c. data (i + 16 + length ds) = Some c \<and> is_digit c))"
  shows "parse_content_length (mem_of (cl_header @ ''0000000042'')) 26 = 42
         \<and> parse_content_length data data_len = of_nat (decimal_value ds)"
proof -
  have c: "parse_content_length (mem_of (cl_header @ ''0000000042'')) 26 = 42"
    by code_simp
  have m: "match_header data i 0 = HdrMatch"
    using assms(4) by (intro match_header_all) simp
  have s: "search_header data data_len 0 =
           Parsed (fst (accumulate_digits data data_len (i + 16) 0 0))
                  (snd (accumulate_digits data data_len (i + 16) 0 0))"
    using assms(1,2,3) m by (intro search_header_first_match) auto
  have "fst (accumulate_digits data data_len (i + 16) 0 0) =
          foldl (\<lambda>a c. a * 10 + digit_val c) 0 (drop 0 ds)"
    using assms(5-9) by (intro accumulate_digits_run) auto
  also have "\<dots> = of_nat (decimal_value ds)"
    using digit_step [of 0 ds] by (simp add: decimal_value_def)
  finally show ?thesis using c s by (simp add: parse_content_length_def)
qed


theorem content_length_ten_digit_cap_witness:
  "list_all (\<lambda>j. mem_of eleven_digits j = Some (cl_header ! j)) [0..<16]
   \<and> list_all is_digit ''0000000042''
   \<and> list_all (\<lambda>j. mem_of eleven_digits (16 + j) = Some (''0000000042'' ! j)) [0..<10]
   \<and> mem_of eleven_digits 26 = Some (CHR ''7'') \<and> is_digit (CHR ''7'')
   \<and> decimal_value ''0000000042'' = 42
   \<and> parse_content_length (mem_of eleven_digits) 27 = 42
   \<and> list_all (\<lambda>i. match_header (mem_of http_request) i 0 = HdrMismatch) [0..<27]
   \<and> list_all (\<lambda>j. mem_of http_request (27 + j) = Some (cl_header ! j)) [0..<16]
   \<and> mem_of http_request 43 = Some (CHR ''4'') \<and> mem_of http_request 44 = Some (CHR ''2'')
   \<and> mem_of http_request 45 = Some (CHR 0x0D) \<and> \<not> is_digit (CHR 0x0D)
   \<and> parse_content_length (mem_of http_request) 49 = 42"
proof -
  have d: "list_all is_digit ''0000000042''" "is_digit (CHR ''7'')" "\<not> is_digit (CHR 0x0D)"
    "list_all is_digit ''42''"
    by (simp_all add: is_digit_def)
  have v: "decimal_value ''0000000042'' = 42" "decimal_value ''42'' = 42"
    by (simp_all add: decimal_value_def)
  have m: "mem_of eleven_digits 26 = Some (CHR ''7'')" "mem_of http_request 43 = Some (CHR ''4'')"
    "mem_of http_request 44 = Some (CHR ''2'')" "mem_of http_request 45 = Some (CHR 0x0D)"
    by code_simp+
  have two: "\<forall>j<length ''42''. mem_of http_request (27 + 16 + j) = Some (''42'' ! j)"
    using m(2,3) by (simp add: less_Suc_eq numeral_eq_Suc)
  have a: "parse_content_length (mem_of eleven_digits) 27 = of_nat (decimal_value ''0000000042'')"
    using content_length_ten_digit_cap [of 0 27 "mem_of eleven_digits" "''0000000042''"]
      eleven_header eleven_digits_read d(1)
    by (simp add: list_all_iff)
  have b: "parse_content_length (mem_of http_request) 49 = of_nat (decimal_value ''42'')"
    using content_length_ten_digit_cap [of 27 49 "mem_of http_request" "''42''"]
      request_mismatches request_header d(3,4) two m(4)
    by (simp add: list_all_iff)
  show ?thesis
    using a b v d m eleven_header eleven_digits_read request_mismatches request_header by simp
qed

section \<open>The connect handler (C5)\<close>

lemma bpf_ntohs_443 [simp]: "bpf_ntohs 0xBB01 = 443"
  by (simp add: bpf_ntohs_def)

lemma bpf_ntohs_8080 [simp]: "bpf_ntohs 0x901F = 8080"
  by (simp add: bpf_ntohs_def)

lemma full_socket_table_dom:
  "fmdom' full_socket_table = of_nat ` {0..<2048}"
proof -
  have "fmdom' full_socket_table = fset (fmdom full_socket_table)"
    by (simp add: fmdom'_alt_def)
  also have "\<dots> = set (map fst (map (\<lambda>fd. (of_nat fd :: u32, sample_socket)) [0..<2048]))"
    unfolding full_socket_table_def fmdom_fmap_of_list by (simp only: fset_of_list.rep_eq)
  also have "\<dots> = of_nat ` {0..<2048}"
    by (simp add: image_image del: upt_Suc)
  finally show ?thesis .
qed

lemma u32_of_nat_inj: "inj_on (of_nat :: nat \<Rightarrow> u32) {0..<2048}"
proof (rule inj_onI)
  fix x y :: nat
  assume "x \<in> {0..<2048}" "y \<in> {0..<2048}" "(of_nat x :: u32) = of_nat y"
  then have "unat (of_nat x :: u32) = unat (of_nat y :: u32)" "x < 2 ^ 32" "y < 2 ^ 32" by auto
  then show "x = y" by (simp add: unat_of_nat)
qed

lemma full_socket_table_card: "fcard (fmdom full_socket_table) = 2048"
proof -
  have "fcard (fmdom full_socket_table) = card (fmdom' full_socket_table)"
    by (simp add: fcard.rep_eq fmdom'_alt_def)
  also have "\<dots> = 2048"
    by (simp add: full_socket_table_dom card_image [OF u32_of_nat_inj])
  finally show ?thesis .
qed

lemma full_socket_table_5000: "fmlookup full_socket_table 5000 = None"
proof -
  have "(5000 :: u32) \<notin> of_nat ` {0..<2048}"
  proof
    assume "(5000 :: u32) \<in> of_nat ` {0..<2048}"
    then obtain n :: nat where n: "n < 2048" "(5000 :: u32) = of_nat n" by auto
    then have "unat (5000 :: u32) = unat (of_nat n :: u32)" by simp
    with n(1) show False by (simp add: unat_of_nat)
  qed
  then show ?thesis
    by (simp add: full_socket_table_dom [symmetric] fmdom'_notD)
qed


lemma full_state_simps [simp]:
  "fmlookup (claude_pids full_state) 100 = Some 5000"
  "socket_connections full_state = full_socket_table"
  "events full_state = []"
  by (simp_all add: full_state_def)

lemma sample_addr_simps [simp]:
  "sin_family sample_addr = Some AF_INET" "sin_port sample_addr = Some 0xBB01"
  "sin_addr sample_addr = Some 0x0100007F"
  "sin_family sample_addr_8080 = Some AF_INET" "sin_port sample_addr_8080 = Some 0x901F"
  "sin_addr sample_addr_8080 = Some 0x0100007F"
  by (simp_all add: sample_addr_def sample_addr_8080_def)

lemma trace_connect_reserved:
  assumes "fmlookup (claude_pids s) (current_pid k) = Some t"
    and "sin_family a = Some AF_INET" "sin_addr a = Some target" "sin_port a = Some port_be"
    and "ringbuf_reserve k"
  shows "trace_connect k fd_arg (Some a) s =
     increment_counter COUNTER_EVENTS_PROCESSED
       (bpf_ringbuf_submit (connect_event k target (bpf_ntohs port_be))
          (if is_anthropic_connection target (bpf_ntohs port_be)
           then (increment_counter COUNTER_CONNECT_CALLS s)
                  \<lparr>socket_connections :=
                     bpf_map_update_elem socket_connections_max_entries (socket_connections s)
                       (ucast fd_arg)
                       \<lparr>si_pid = current_pid k, si_target_addr = target,
                        si_target_port = bpf_ntohs port_be, si_connect_time = ktime_get_ns k\<rparr>\<rparr>
           else increment_counter COUNTER_CONNECT_CALLS s))"
  using assms
  by (simp add: trace_connect_def Let_def connect_event_def zero_event_def
      MAX_COMM_LEN_def MAX_PATH_LEN_def MAX_HTTP_METHOD_LEN_def MAX_HTTP_URI_LEN_def)

lemma trace_connect_dropped:
  assumes "fmlookup (claude_pids s) (current_pid k) = Some t"
    and "sin_family a = Some AF_INET" "\<not> ringbuf_reserve k"
  shows "trace_connect k fd_arg (Some a) s =
     increment_counter COUNTER_EVENTS_DROPPED (increment_counter COUNTER_CONNECT_CALLS s)"
  using assms by (simp add: trace_connect_def Let_def)

text \<open>
  C5, as the code has it. For a connect of a tracked process to a readable IPv4
  destination, when the ring buffer has room: a CONNECT record with the address and
  the port in host order is emitted. For a port other than 443 and 80 (such as 8080)
  the socket map is left as it is. For port 443 or 80, when the descriptor already has
  an entry or the socket map holds fewer than 2048 entries, the descriptor gets the
  entry with this process id, address, port and time; a later write of the same
  process on that descriptor then passes the gate, and where its method and URI are
  parsed it emits an HTTP\_REQUEST record with that address and port.
\<close>

theorem trace_connect_correlates:
  assumes "fmlookup (claude_pids s) (current_pid k) = Some t"
    and "sin_family a = Some AF_INET" "sin_addr a = Some target" "sin_port a = Some port_be"
    and "ringbuf_reserve k"
  shows "events (trace_connect k fd_arg (Some a) s) =
           events s @ [connect_event k target (bpf_ntohs port_be)]
         \<and> (bpf_ntohs port_be \<noteq> 443 \<and> bpf_ntohs port_be \<noteq> 80 \<longrightarrow>
              socket_connections (trace_connect k fd_arg (Some a) s) = socket_connections s)
         \<and> ((bpf_ntohs port_be = 443 \<or> bpf_ntohs port_be = 80)
            \<and> (ucast fd_arg |\<in>| fmdom (socket_connections s)
                 \<or> fcard (fmdom (socket_connections s)) < 2048) \<longrightarrow>
              fmlookup (socket_connections (trace_connect k fd_arg (Some a) s)) (ucast fd_arg) =
                Some \<lparr>si_pid = current_pid k, si_target_addr = target,
                      si_target_port = bpf_ntohs port_be, si_connect_time = ktime_get_ns k\<rparr>
            \<and> (\<forall>k' buf count method_len method uri_len uri.
                  current_pid k' = current_pid k \<and> 16 \<le> count \<and> count \<le> 512
                  \<and> parse_http_method buf (uint count) (replicate 8 NUL) 8 = (method_len, method)
                  \<and> 3 \<le> method_len
                  \<and> parse_http_uri buf (uint count) method_len (replicate 128 NUL) 128 = (uri_len, uri)
                  \<and> 1 \<le> uri_len \<and> ringbuf_reserve k' \<longrightarrow>
                  events (trace_write k' fd_arg buf count (trace_connect k fd_arg (Some a) s)) =
                    events (trace_connect k fd_arg (Some a) s) @
                    [http_request_event k'
                       \<lparr>si_pid = current_pid k, si_target_addr = target,
                        si_target_port = bpf_ntohs port_be, si_connect_time = ktime_get_ns k\<rparr>
                       (ucast fd_arg) method uri (parse_content_length buf (uint count))]))"
proof -
  let ?s' = "trace_connect k fd_arg (Some a) s"
  let ?info = "\<lparr>si_pid = current_pid k, si_target_addr = target,
                si_target_port = bpf_ntohs port_be, si_connect_time = ktime_get_ns k\<rparr>"
  note eq = trace_connect_reserved [OF assms, of fd_arg]
  have ev: "events ?s' = events s @ [connect_event k target (bpf_ntohs port_be)]"
    by (simp add: eq)
  have pids: "claude_pids ?s' = claude_pids s"
    by (simp add: eq)
  have other: "socket_connections ?s' = socket_connections s"
    if "bpf_ntohs port_be \<noteq> 443 \<and> bpf_ntohs port_be \<noteq> 80"
    using that by (simp add: eq is_anthropic_connection_def)
  have entry: "fmlookup (socket_connections ?s') (ucast fd_arg) = Some ?info"
    if "bpf_ntohs port_be = 443 \<or> bpf_ntohs port_be = 80"
      and "ucast fd_arg |\<in>| fmdom (socket_connections s)
           \<or> fcard (fmdom (socket_connections s)) < 2048"
    using that
    by (auto simp add: eq is_anthropic_connection_def bpf_map_update_elem_def
        socket_connections_max_entries_def)
  have later_write: "events (trace_write k' fd_arg buf count ?s') =
                 events ?s' @ [http_request_event k' ?info (ucast fd_arg) mbuf uri
                                 (parse_content_length buf (uint count))]"
    if "fmlookup (socket_connections ?s') (ucast fd_arg) = Some ?info"
      and "current_pid k' = current_pid k" "16 \<le> count" "count \<le> 512"
      and "parse_http_method buf (uint count) (replicate 8 NUL) 8 = (method_len, mbuf)"
      and "3 \<le> method_len"
      and "parse_http_uri buf (uint count) method_len (replicate 128 NUL) 128 = (uri_len, uri)"
      and "1 \<le> uri_len" "ringbuf_reserve k'"
    for k' buf count method_len mbuf uri_len uri
  proof -
    have "fmlookup (claude_pids ?s') (current_pid k') = Some t"
      using assms(1) that(2) by (simp add: pids)
    from trace_write_parsed [OF this that(1,3,4,5,6,7,8)] that(9)
    show ?thesis by simp
  qed
  show ?thesis using ev other entry later_write by blast
qed


theorem trace_connect_correlates_witness:
  "fmlookup (claude_pids tracked_state) (current_pid (helpers_of ''claude'' True)) = Some 5000
   \<and> ringbuf_reserve (helpers_of ''claude'' True)
   \<and> sin_family sample_addr = Some AF_INET \<and> bpf_ntohs 0xBB01 = 443
   \<and> fcard (fmdom (socket_connections tracked_state)) < 2048
   \<and> events (trace_connect (helpers_of ''claude'' True) 3 (Some sample_addr) tracked_state) =
       [connect_event (helpers_of ''claude'' True) 0x0100007F 443]
   \<and> fmlookup (socket_connections
         (trace_connect (helpers_of ''claude'' True) 3 (Some sample_addr) tracked_state)) 3 =
       Some \<lparr>si_pid = 100, si_target_addr = 0x0100007F, si_target_port = 443,
             si_connect_time = 5000\<rparr>
   \<and> events (trace_write (helpers_of ''claude'' True) 3 (mem_of http_request) 49
         (trace_connect (helpers_of ''claude'' True) 3 (Some sample_addr) tracked_state)) =
       [connect_event (helpers_of ''claude'' True) 0x0100007F 443,
        http_request_event (helpers_of ''claude'' True)
          \<lparr>si_pid = 100, si_target_addr = 0x0100007F, si_target_port = 443,
           si_connect_time = 5000\<rparr>
          3 (''GET'' @ replicate 5 NUL) (''/v1/messages'' @ replicate 116 NUL) 42]
   \<and> sin_family sample_addr_8080 = Some AF_INET \<and> bpf_ntohs 0x901F = 8080
   \<and> events (trace_connect (helpers_of ''claude'' True) 3 (Some sample_addr_8080) tracked_state) =
       [connect_event (helpers_of ''claude'' True) 0x0100007F 8080]
   \<and> socket_connections
         (trace_connect (helpers_of ''claude'' True) 3 (Some sample_addr_8080) tracked_state) = fmempty"
proof -
  let ?k = "helpers_of ''claude'' True"
  note a = trace_connect_correlates [of tracked_state ?k 5000 sample_addr "0x0100007F" "0xBB01" 3]
  note b = trace_connect_correlates [of tracked_state ?k 5000 sample_addr_8080 "0x0100007F" "0x901F" 3]
  have a1: "events (trace_connect ?k 3 (Some sample_addr) tracked_state) =
       [connect_event ?k 0x0100007F 443]"
    using a by simp
  have a2: "fmlookup (socket_connections (trace_connect ?k 3 (Some sample_addr) tracked_state)) 3 =
       Some \<lparr>si_pid = 100, si_target_addr = 0x0100007F, si_target_port = 443,
             si_connect_time = 5000\<rparr>"
    using a by (simp add: fcard_fempty)
  have a3: "events (trace_write ?k 3 (mem_of http_request) 49
         (trace_connect ?k 3 (Some sample_addr) tracked_state)) =
       events (trace_connect ?k 3 (Some sample_addr) tracked_state) @
       [http_request_event ?k
          \<lparr>si_pid = 100, si_target_addr = 0x0100007F, si_target_port = 443,
           si_connect_time = 5000\<rparr>
          3 (''GET'' @ replicate 5 NUL) (''/v1/messages'' @ replicate 116 NUL) 42]"
    using a [THEN conjunct2, THEN conjunct2, rule_format, THEN conjunct2, rule_format,
        of ?k 49 "mem_of http_request" 3 "''GET'' @ replicate 5 NUL" 12
           "''/v1/messages'' @ replicate 116 NUL"]
      http_request_method http_request_uri http_request_content_length
    by (simp add: fcard_fempty)
  have b1: "events (trace_connect ?k 3 (Some sample_addr_8080) tracked_state) =
       [connect_event ?k 0x0100007F 8080]"
    using b by simp
  have b2: "socket_connections (trace_connect ?k 3 (Some sample_addr_8080) tracked_state) = fmempty"
    using b by simp
  show ?thesis using a1 a2 a3 b1 b2 by (simp add: fcard_fempty)
qed

text \<open>
  C5 as stated fails in two ways. With the ring buffer full, a connect to port 443
  emits no record and creates no entry: the handler returns before both. With room in
  the ring buffer and the socket map full (2048 entries), a connect to port 443 on a
  descriptor that has no entry emits its record and creates no entry.
\<close>

theorem trace_connect_without_entry:
  "fmlookup (claude_pids tracked_state) (current_pid (helpers_of ''claude'' False)) = Some 5000
   \<and> sin_family sample_addr = Some AF_INET \<and> sin_addr sample_addr = Some 0x0100007F
   \<and> sin_port sample_addr = Some 0xBB01 \<and> bpf_ntohs 0xBB01 = 443
   \<and> events (trace_connect (helpers_of ''claude'' False) 3 (Some sample_addr) tracked_state) = []
   \<and> fmlookup (socket_connections
         (trace_connect (helpers_of ''claude'' False) 3 (Some sample_addr) tracked_state)) 3 = None
   \<and> fmlookup (claude_pids full_state) (current_pid (helpers_of ''claude'' True)) = Some 5000
   \<and> ringbuf_reserve (helpers_of ''claude'' True)
   \<and> fcard (fmdom (socket_connections full_state)) = 2048
   \<and> events (trace_connect (helpers_of ''claude'' True) 5000 (Some sample_addr) full_state) =
       [connect_event (helpers_of ''claude'' True) 0x0100007F 443]
   \<and> fmlookup (socket_connections
         (trace_connect (helpers_of ''claude'' True) 5000 (Some sample_addr) full_state)) 5000 = None"
proof -
  have d: "trace_connect (helpers_of ''claude'' False) 3 (Some sample_addr) tracked_state =
     increment_counter COUNTER_EVENTS_DROPPED (increment_counter COUNTER_CONNECT_CALLS tracked_state)"
    by (rule trace_connect_dropped [where t = 5000]) simp_all
  have notin: "(5000 :: u32) |\<notin>| fmdom full_socket_table"
    using full_socket_table_5000 by (simp add: fmdom_notI)
  have f: "trace_connect (helpers_of ''claude'' True) 5000 (Some sample_addr) full_state =
     increment_counter COUNTER_EVENTS_PROCESSED
       (bpf_ringbuf_submit (connect_event (helpers_of ''claude'' True) 0x0100007F 443)
          (increment_counter COUNTER_CONNECT_CALLS full_state))"
    using trace_connect_reserved [of full_state "helpers_of ''claude'' True" 5000 sample_addr
        "0x0100007F" "0xBB01" 5000] notin
    by (simp add: is_anthropic_connection_def bpf_map_update_elem_def full_socket_table_card
        socket_connections_max_entries_def)
  show ?thesis
    by (simp add: d f full_socket_table_card full_socket_table_5000)
qed

section \<open>Read faults (C4)\<close>

text \<open>
  A fault result of the header search comes from a byte of the buffer that cannot be
  read; and what the comparison at an offset returns follows from the bytes there.
\<close>

lemma match_header_HdrFaultD:
  "match_header data i j = HdrFault \<Longrightarrow> \<exists>j'<16. data (i + j') = None"
proof (induction data i j rule: match_header.induct)
  case (1 data i j)
  show ?case
  proof (cases "j < cl_header_len")
    case False
    with "1.prems" show ?thesis by (simp add: match_header.simps [of data i j])
  next
    case True
    show ?thesis
    proof (cases "data (i + j)")
      case None
      with True show ?thesis by (auto simp: cl_header_len_def)
    next
      case (Some c)
      with True "1.prems" have ne: "\<not> c \<noteq> cl_header ! j" and
        "match_header data i (j + 1) = HdrFault"
        by (auto simp add: match_header.simps [of data i j] split: if_splits)
      with "1.IH" [OF True Some] show ?thesis by simp
    qed
  qed
qed

lemma accumulate_digits_StopFaultD:
  "snd (accumulate_digits data data_len start_pos k content_len) = StopFault \<Longrightarrow>
     \<exists>q. int q < data_len \<and> data q = None"
proof (induction data data_len start_pos k content_len rule: accumulate_digits.induct)
  case (1 data data_len start_pos k content_len)
  show ?case
  proof (cases "k < 10 \<and> int (start_pos + k) < data_len")
    case False
    with "1.prems" show ?thesis
      by (auto simp add: accumulate_digits.simps [of data data_len start_pos k])
  next
    case True
    show ?thesis
    proof (cases "data (start_pos + k)")
      case None
      with True show ?thesis by blast
    next
      case (Some c)
      with True "1.prems" have d: "is_digit c" and
        "snd (accumulate_digits data data_len start_pos (k + 1) (content_len * 10 + digit_val c))
           = StopFault"
        by (auto simp add: accumulate_digits.simps [of data data_len start_pos k] split: if_splits)
      with "1.IH" [OF True Some] show ?thesis by simp
    qed
  qed
qed

lemma search_header_faultD:
  "search_header data data_len i = HeaderFault \<or> (\<exists>v. search_header data data_len i = Parsed v StopFault)
     \<Longrightarrow> \<exists>q. int q < data_len \<and> data q = None"
proof (induction data data_len i rule: search_header.induct)
  case (1 data data_len i)
  show ?case
  proof (cases "i < HTTP_HEADER_SIZE \<and> int i < data_len - int cl_header_len")
    case False
    with "1.prems" show ?thesis by (auto simp add: search_header.simps [of data data_len i])
  next
    case True
    show ?thesis
    proof (cases "match_header data i 0")
      case HdrFault
      then obtain j' where "j' < 16" "data (i + j') = None"
        using match_header_HdrFaultD by blast
      moreover have "int (i + j') < data_len"
        using True \<open>j' < 16\<close> by (simp add: cl_header_len_def)
      ultimately show ?thesis by blast
    next
      case HdrMismatch
      with True "1.prems" have
        "search_header data data_len (i + 1) = HeaderFault
         \<or> (\<exists>v. search_header data data_len (i + 1) = Parsed v StopFault)"
        by (simp add: search_header.simps [of data data_len i])
      with "1.IH" [OF True HdrMismatch] show ?thesis by simp
    next
      case HdrMatch
      with True "1.prems" have
        "snd (accumulate_digits data data_len (i + cl_header_len) 0 0) = StopFault"
        by (auto simp add: search_header.simps [of data data_len i] split: prod.splits)
      then show ?thesis by (rule accumulate_digits_StopFaultD)
    qed
  qed
qed

lemma header_prefix_iff:
  "header_prefix data i j = (\<forall>j'<j. data (i + j') = Some (cl_header ! j'))"
  by (auto simp: header_prefix_def list_all_iff)

lemma match_header_differs:
  assumes "j \<le> jj" "jj < 16" "data (i + jj) = Some c" "c \<noteq> cl_header ! jj"
    and "\<forall>j'. j \<le> j' \<and> j' < jj \<longrightarrow> data (i + j') = Some (cl_header ! j')"
  shows "match_header data i j = HdrMismatch"
  using assms(1,5)
proof (induction "jj - j" arbitrary: j)
  case 0
  then have "j = jj" by simp
  with assms(2,3,4) show ?case
    by (simp add: match_header.simps [of data i jj] cl_header_len_def)
next
  case (Suc n)
  then have lt: "j < jj" by simp
  with Suc.prems have rd: "data (i + j) = Some (cl_header ! j)" by simp
  have ih: "match_header data i (j + 1) = HdrMismatch"
    using Suc.hyps(2) Suc.prems lt by (intro Suc.hyps(1)) auto
  show ?case
    using lt assms(2) rd ih
    by (simp add: match_header.simps [of data i j] cl_header_len_def)
qed

lemma match_header_unreadable:
  assumes "j \<le> jj" "jj < 16" "data (i + jj) = None"
    and "\<forall>j'. j \<le> j' \<and> j' < jj \<longrightarrow> data (i + j') = Some (cl_header ! j')"
  shows "match_header data i j = HdrFault"
  using assms(1,4)
proof (induction "jj - j" arbitrary: j)
  case 0
  then have "j = jj" by simp
  with assms(2,3) show ?case
    by (simp add: match_header.simps [of data i jj] cl_header_len_def)
next
  case (Suc n)
  then have lt: "j < jj" by simp
  with Suc.prems have rd: "data (i + j) = Some (cl_header ! j)" by simp
  have ih: "match_header data i (j + 1) = HdrFault"
    using Suc.hyps(2) Suc.prems lt by (intro Suc.hyps(1)) auto
  show ?case
    using lt assms(2) rd ih
    by (simp add: match_header.simps [of data i j] cl_header_len_def)
qed

lemma mismatch_at_match_header:
  "mismatch_at data i \<Longrightarrow> match_header data i 0 = HdrMismatch"
proof -
  assume "mismatch_at data i"
  then obtain jj c where "jj < 16" "header_prefix data i jj" "data (i + jj) = Some c"
    "c \<noteq> cl_header ! jj"
    by (auto simp: mismatch_at_def list_ex_iff split: option.splits)
  then show ?thesis
    by (intro match_header_differs [where jj = jj and c = c]) (auto simp: header_prefix_iff)
qed

lemma fault_at_match_header:
  "fault_at data i \<Longrightarrow> match_header data i 0 = HdrFault"
proof -
  assume "fault_at data i"
  then obtain jj where "jj < 16" "header_prefix data i jj" "data (i + jj) = None"
    by (auto simp: fault_at_def list_ex_iff)
  then show ?thesis
    by (intro match_header_unreadable [where jj = jj]) (auto simp: header_prefix_iff)
qed

lemma header_at_match_header:
  "header_at data i \<Longrightarrow> match_header data i 0 = HdrMatch"
  by (intro match_header_all) (auto simp: header_at_def header_prefix_iff)

lemma search_header_first_fault:
  assumes "i0 \<le> i" "i < 512" "int (i + 16) < data_len"
    and "\<forall>i'. i0 \<le> i' \<and> i' < i \<longrightarrow> match_header data i' 0 = HdrMismatch"
    and "match_header data i 0 = HdrFault"
  shows "search_header data data_len i0 = HeaderFault"
  using assms(1,4)
proof (induction "i - i0" arbitrary: i0)
  case 0
  then have "i0 = i" by simp
  then show ?case
    using assms(2,3,5)
    by (subst search_header.simps) (simp add: HTTP_HEADER_SIZE_def cl_header_len_def)
next
  case (Suc n)
  then have lt: "i0 < i" by simp
  with Suc.prems have mm: "match_header data i0 0 = HdrMismatch" by simp
  have ih: "search_header data data_len (i0 + 1) = HeaderFault"
    using Suc.hyps(2) Suc.prems lt by (intro Suc.hyps(1)) auto
  show ?case
    using lt assms(2,3) mm ih
    by (subst search_header.simps) (simp add: HTTP_HEADER_SIZE_def cl_header_len_def)
qed

text \<open>
  The search ends at the first offset that is no mismatch: with 0 when a byte of the
  comparison there cannot be read, whatever lies behind it.
\<close>

lemma parse_content_length_header_fault:
  assumes "i < 512" "int (i + 16) < data_len" "\<forall>i'<i. mismatch_at data i'" "fault_at data i"
  shows "parse_content_length data data_len = 0"
proof -
  have "search_header data data_len 0 = HeaderFault"
    using assms by (intro search_header_first_fault [where i = i])
      (auto simp: mismatch_at_match_header fault_at_match_header)
  then show ?thesis by (simp add: parse_content_length_def)
qed

text \<open>
  A byte that cannot be read behind fewer than ten digits ends the digit loop with
  the number of these digits.
\<close>

lemma parse_content_length_digit_fault:
  assumes "i < 512" "int (i + 16) < data_len" "\<forall>i'<i. mismatch_at data i'" "header_at data i"
    and "length ds < 10" "list_all is_digit ds"
    and "\<forall>j<length ds. data (i + 16 + j) = Some (ds ! j)"
    and "int (i + 16 + length ds) < data_len" "data (i + 16 + length ds) = None"
  shows "parse_content_length data data_len = of_nat (decimal_value ds)"
proof -
  have s: "search_header data data_len 0 =
           Parsed (fst (accumulate_digits data data_len (i + 16) 0 0))
                  (snd (accumulate_digits data data_len (i + 16) 0 0))"
    using assms(1-4) by (intro search_header_first_match)
      (auto simp: mismatch_at_match_header header_at_match_header)
  have "fst (accumulate_digits data data_len (i + 16) 0 0) =
          foldl (\<lambda>a c. a * 10 + digit_val c) 0 (drop 0 ds)"
    using assms(5-9) by (intro accumulate_digits_run) (auto simp: list_all_iff)
  also have "\<dots> = of_nat (decimal_value ds)"
    using digit_step [of 0 ds] by (simp add: decimal_value_def)
  finally show ?thesis using s by (simp add: parse_content_length_def)
qed

lemma faulting_digits_eval:
  "parse_http_method (mem_of faulting_digits) 64 (replicate 8 NUL) 8 = (3, ''GET'' @ replicate 5 NUL)"
  "parse_http_uri (mem_of faulting_digits) 64 3 (replicate 128 NUL) 128 =
     (12, ''/v1/messages'' @ replicate 116 NUL)"
  "search_header (mem_of faulting_digits) 64 0 = Parsed 4 StopFault"
  "mem_of faulting_digits 43 = Some (CHR ''4'')"
  "mem_of faulting_digits 44 = None"
  by code_simp+

lemma faulting_header_eval:
  "parse_http_method (mem_of faulting_header) 64 (replicate 8 NUL) 8 = (3, ''GET'' @ replicate 5 NUL)"
  "parse_http_uri (mem_of faulting_header) 64 3 (replicate 128 NUL) 128 =
     (12, ''/v1/messages'' @ replicate 116 NUL)"
  "search_header (mem_of faulting_header) 64 0 = HeaderFault"
  "mem_of faulting_header 37 = None"
  by code_simp+

lemma trace_write_bytes:
  assumes "fmlookup (claude_pids s) (current_pid k) = Some t"
    and "fmlookup (socket_connections s) (ucast fd_arg) = Some sock_info"
    and "16 \<le> count" "count \<le> 512"
    and "3 \<le> p" "p < 8" "buf p = Some SPACE" "no_space buf 0 p"
    and "1 \<le> n" "n < 128" "int (p + 1 + n) < uint count" "buf (p + 1 + n) = Some SPACE"
    and "no_space buf (p + 1) n" "ringbuf_reserve k"
  shows "events (trace_write k fd_arg buf count s) =
           events s @
           [http_request_event k sock_info (ucast fd_arg)
              (bytes_at buf 0 p @ replicate (8 - p) NUL)
              (bytes_at buf (p + 1) n @ replicate (128 - n) NUL)
              (parse_content_length buf (uint count))]"
proof -
  have len: "8 \<le> uint count" using gate_count(2) [OF assms(3,4)] by simp
  have m: "parse_http_method buf (uint count) (replicate 8 NUL) 8 =
             (int p, bytes_at buf 0 p @ replicate (8 - p) NUL)"
    using parse_http_method_found [OF len assms(6,7,8), of "replicate 8 NUL"]
    unfolding terminated_zero [OF assms(6)] by simp
  have u: "parse_http_uri buf (uint count) (int p) (replicate 128 NUL) 128 =
             (int n, bytes_at buf (p + 1) n @ replicate (128 - n) NUL)"
    using parse_http_uri_found [OF assms(9,10,11,12,13), of "replicate 128 NUL"]
    unfolding terminated_zero [OF assms(10)] by simp
  have "3 \<le> int p" "1 \<le> int n" using assms(5,9) by simp_all
  from trace_write_parsed [OF assms(1,2,3,4) m this(1) u this(2)] assms(14)
  show ?thesis by simp
qed

lemma faulting_digits_bytes:
  "mem_of faulting_digits 3 = Some SPACE" "no_space (mem_of faulting_digits) 0 3"
  "mem_of faulting_digits 16 = Some SPACE" "no_space (mem_of faulting_digits) 4 12"
  "bytes_at (mem_of faulting_digits) 0 3 = ''GET''"
  "bytes_at (mem_of faulting_digits) 4 12 = ''/v1/messages''"
  "list_all (\<lambda>i'. mismatch_at (mem_of faulting_digits) i') [0..<27]"
  "header_at (mem_of faulting_digits) 27"
  by code_simp+

lemma faulting_header_bytes:
  "mem_of faulting_header 3 = Some SPACE" "no_space (mem_of faulting_header) 0 3"
  "mem_of faulting_header 16 = Some SPACE" "no_space (mem_of faulting_header) 4 12"
  "bytes_at (mem_of faulting_header) 0 3 = ''GET''"
  "bytes_at (mem_of faulting_header) 4 12 = ''/v1/messages''"
  "list_all (\<lambda>i'. mismatch_at (mem_of faulting_header) i') [0..<27]"
  "fault_at (mem_of faulting_header) 27"
  by code_simp+

text \<open>
  C4, as the code has it, for a write that passes the gate. A byte that cannot be read
  before the first blank of the method makes \<open>parse_http_method\<close> fail, and the
  handler returns with the state unchanged; the same holds for a byte that cannot be
  read before the blank that ends the URI. In the content-length extraction a fault
  ends the scan but is not handed on. Where every earlier offset is a mismatch and
  the comparison at offset \<open>i\<close> meets a byte that cannot be read, the result is 0,
  whatever lies behind that byte. Where the header is first found at offset \<open>i\<close>
  and fewer than ten digits behind it are followed by a byte that cannot be read, the
  result is the number of these digits. In both cases the handler goes on and, when
  the ring buffer has room, emits the record with that value.
\<close>

theorem read_fault_propagation:
  assumes "fmlookup (claude_pids s) (current_pid k) = Some t"
    and "fmlookup (socket_connections s) (ucast fd_arg) = Some sock_info"
    and "16 \<le> count" "count \<le> 512"
  shows "(\<forall>p<8. buf p = None \<and> no_space buf 0 p \<longrightarrow>
            fst (parse_http_method buf (uint count) (replicate 8 NUL) 8) = -1
          \<and> trace_write k fd_arg buf count s = s)
       \<and> (\<forall>p n. 3 \<le> p \<and> p < 8 \<and> buf p = Some SPACE \<and> no_space buf 0 p
              \<and> n < 128 \<and> int (p + 1 + n) < uint count
              \<and> buf (p + 1 + n) = None \<and> no_space buf (p + 1) n \<longrightarrow>
            fst (parse_http_uri buf (uint count) (int p) (replicate 128 NUL) 128) = -1
          \<and> trace_write k fd_arg buf count s = s)
       \<and> (\<forall>p n. 3 \<le> p \<and> p < 8 \<and> buf p = Some SPACE \<and> no_space buf 0 p
              \<and> 1 \<le> n \<and> n < 128 \<and> int (p + 1 + n) < uint count
              \<and> buf (p + 1 + n) = Some SPACE \<and> no_space buf (p + 1) n
              \<and> ringbuf_reserve k \<longrightarrow>
            (\<forall>i. i < 512 \<and> int (i + 16) < uint count
                 \<and> (\<forall>i'<i. mismatch_at buf i') \<and> fault_at buf i \<longrightarrow>
               parse_content_length buf (uint count) = 0
             \<and> events (trace_write k fd_arg buf count s) =
                 events s @
                 [http_request_event k sock_info (ucast fd_arg)
                    (bytes_at buf 0 p @ replicate (8 - p) NUL)
                    (bytes_at buf (p + 1) n @ replicate (128 - n) NUL) 0])
          \<and> (\<forall>i ds. i < 512 \<and> int (i + 16) < uint count
                 \<and> (\<forall>i'<i. mismatch_at buf i') \<and> header_at buf i
                 \<and> length ds < 10 \<and> list_all is_digit ds
                 \<and> (\<forall>j<length ds. buf (i + 16 + j) = Some (ds ! j))
                 \<and> int (i + 16 + length ds) < uint count
                 \<and> buf (i + 16 + length ds) = None \<longrightarrow>
               parse_content_length buf (uint count) = of_nat (decimal_value ds)
             \<and> events (trace_write k fd_arg buf count s) =
                 events s @
                 [http_request_event k sock_info (ucast fd_arg)
                    (bytes_at buf 0 p @ replicate (8 - p) NUL)
                    (bytes_at buf (p + 1) n @ replicate (128 - n) NUL)
                    (of_nat (decimal_value ds))]))"
proof -
  have len: "16 \<le> uint count" using gate_count(2) [OF assms(3,4)] .
  have a: "fst (parse_http_method buf (uint count) (replicate 8 NUL) 8) = -1
           \<and> trace_write k fd_arg buf count s = s"
    if "p < 8" "buf p = None" "no_space buf 0 p" for p
  proof -
    have f: "fst (parse_http_method buf (uint count) (replicate 8 NUL) 8) = -1"
      using that len by (intro parse_http_method_fault [where p = p]) auto
    obtain ml m where m: "parse_http_method buf (uint count) (replicate 8 NUL) 8 = (ml, m)"
      by (cases "parse_http_method buf (uint count) (replicate 8 NUL) 8")
    with f have "ml < 3" by simp
    from trace_write_short_method [OF m this] f show ?thesis by simp
  qed
  have b: "fst (parse_http_uri buf (uint count) (int p) (replicate 128 NUL) 128) = -1
           \<and> trace_write k fd_arg buf count s = s"
    if "3 \<le> p" "p < 8" "buf p = Some SPACE" "no_space buf 0 p" "n < 128"
      "int (p + 1 + n) < uint count" "buf (p + 1 + n) = None" "no_space buf (p + 1) n" for p n
  proof -
    have len8: "8 \<le> uint count" using len by simp
    note m = parse_http_method_found [OF len8 that(2,3,4), of "replicate 8 NUL"]
    have f: "fst (parse_http_uri buf (uint count) (int p) (replicate 128 NUL) 128) = -1"
      using that by (intro parse_http_uri_fault [where n = n]) auto
    have "trace_write k fd_arg buf count s = s"
      using m f by (intro trace_write_no_uri [where method_len = "int p"]) auto
    with f show ?thesis by simp
  qed
  have c: "events (trace_write k fd_arg buf count s) =
             events s @
             [http_request_event k sock_info (ucast fd_arg)
                (bytes_at buf 0 p @ replicate (8 - p) NUL)
                (bytes_at buf (p + 1) n @ replicate (128 - n) NUL)
                (parse_content_length buf (uint count))]"
    if "3 \<le> p" "p < 8" "buf p = Some SPACE" "no_space buf 0 p"
      "1 \<le> n" "n < 128" "int (p + 1 + n) < uint count" "buf (p + 1 + n) = Some SPACE"
      "no_space buf (p + 1) n" "ringbuf_reserve k" for p n
    using trace_write_bytes [OF assms that] .
  have d1: "parse_content_length buf (uint count) = 0"
    if "i < 512" "int (i + 16) < uint count" "\<forall>i'<i. mismatch_at buf i'" "fault_at buf i" for i
    using that by (rule parse_content_length_header_fault)
  have d2: "parse_content_length buf (uint count) = of_nat (decimal_value ds)"
    if "i < 512" "int (i + 16) < uint count" "\<forall>i'<i. mismatch_at buf i'" "header_at buf i"
      "length ds < 10" "list_all is_digit ds"
      "\<forall>j<length ds. buf (i + 16 + j) = Some (ds ! j)"
      "int (i + 16 + length ds) < uint count" "buf (i + 16 + length ds) = None" for i ds
    using that by (rule parse_content_length_digit_fault)
  show ?thesis
  proof (intro conjI allI impI)
    fix p assume "p < 8" "buf p = None \<and> no_space buf 0 p"
    then show "fst (parse_http_method buf (uint count) (replicate 8 NUL) 8) = -1"
      and "trace_write k fd_arg buf count s = s"
      using a by blast+
  next
    fix p n
    assume h: "3 \<le> p \<and> p < 8 \<and> buf p = Some SPACE \<and> no_space buf 0 p
              \<and> n < 128 \<and> int (p + 1 + n) < uint count
              \<and> buf (p + 1 + n) = None \<and> no_space buf (p + 1) n"
    then show "fst (parse_http_uri buf (uint count) (int p) (replicate 128 NUL) 128) = -1"
      and "trace_write k fd_arg buf count s = s"
      using b by blast+
  next
    fix p n i
    assume h: "3 \<le> p \<and> p < 8 \<and> buf p = Some SPACE \<and> no_space buf 0 p
              \<and> 1 \<le> n \<and> n < 128 \<and> int (p + 1 + n) < uint count
              \<and> buf (p + 1 + n) = Some SPACE \<and> no_space buf (p + 1) n
              \<and> ringbuf_reserve k"
      and f: "i < 512 \<and> int (i + 16) < uint count
                 \<and> (\<forall>i'<i. mismatch_at buf i') \<and> fault_at buf i"
    from f have z: "parse_content_length buf (uint count) = 0" using d1 by blast
    then show "parse_content_length buf (uint count) = 0" .
    from h have "events (trace_write k fd_arg buf count s) =
             events s @
             [http_request_event k sock_info (ucast fd_arg)
                (bytes_at buf 0 p @ replicate (8 - p) NUL)
                (bytes_at buf (p + 1) n @ replicate (128 - n) NUL)
                (parse_content_length buf (uint count))]"
      by (intro c) simp_all
    then show "events (trace_write k fd_arg buf count s) =
                 events s @
                 [http_request_event k sock_info (ucast fd_arg)
                    (bytes_at buf 0 p @ replicate (8 - p) NUL)
                    (bytes_at buf (p + 1) n @ replicate (128 - n) NUL) 0]"
      by (simp only: z)
  next
    fix p n i ds
    assume h: "3 \<le> p \<and> p < 8 \<and> buf p = Some SPACE \<and> no_space buf 0 p
              \<and> 1 \<le> n \<and> n < 128 \<and> int (p + 1 + n) < uint count
              \<and> buf (p + 1 + n) = Some SPACE \<and> no_space buf (p + 1) n
              \<and> ringbuf_reserve k"
      and f: "i < 512 \<and> int (i + 16) < uint count
                 \<and> (\<forall>i'<i. mismatch_at buf i') \<and> header_at buf i
                 \<and> length ds < 10 \<and> list_all is_digit ds
                 \<and> (\<forall>j<length ds. buf (i + 16 + j) = Some (ds ! j))
                 \<and> int (i + 16 + length ds) < uint count
                 \<and> buf (i + 16 + length ds) = None"
    from f have z: "parse_content_length buf (uint count) = of_nat (decimal_value ds)"
      by (intro d2 [where i = i]) simp_all
    then show "parse_content_length buf (uint count) = of_nat (decimal_value ds)" .
    from h have "events (trace_write k fd_arg buf count s) =
             events s @
             [http_request_event k sock_info (ucast fd_arg)
                (bytes_at buf 0 p @ replicate (8 - p) NUL)
                (bytes_at buf (p + 1) n @ replicate (128 - n) NUL)
                (parse_content_length buf (uint count))]"
      by (intro c) simp_all
    then show "events (trace_write k fd_arg buf count s) =
                 events s @
                 [http_request_event k sock_info (ucast fd_arg)
                    (bytes_at buf 0 p @ replicate (8 - p) NUL)
                    (bytes_at buf (p + 1) n @ replicate (128 - n) NUL)
                    (of_nat (decimal_value ds))]"
      by (simp only: z)
  qed
qed

theorem read_fault_propagation_witness:
  "fmlookup (claude_pids correlated_state) (current_pid (helpers_of ''claude'' True)) = Some 5000
   \<and> fmlookup (socket_connections correlated_state) (ucast (3 :: u64)) = Some sample_socket
   \<and> (16 :: u64) \<le> 64 \<and> (64 :: u64) \<le> 512
   \<and> mem_of ''GE'' 2 = None \<and> no_space (mem_of ''GE'') 0 2
   \<and> fst (parse_http_method (mem_of ''GE'') 64 (replicate 8 NUL) 8) = -1
   \<and> trace_write (helpers_of ''claude'' True) 3 (mem_of ''GE'') 64 correlated_state = correlated_state
   \<and> mem_of ''GET /v1/mes'' 3 = Some SPACE \<and> no_space (mem_of ''GET /v1/mes'') 0 3
   \<and> mem_of ''GET /v1/mes'' 11 = None \<and> no_space (mem_of ''GET /v1/mes'') 4 7
   \<and> fst (parse_http_uri (mem_of ''GET /v1/mes'') 64 3 (replicate 128 NUL) 128) = -1
   \<and> trace_write (helpers_of ''claude'' True) 3 (mem_of ''GET /v1/mes'') 64 correlated_state
       = correlated_state
   \<and> ringbuf_reserve (helpers_of ''claude'' True)
   \<and> mem_of faulting_header 3 = Some SPACE \<and> no_space (mem_of faulting_header) 0 3
   \<and> mem_of faulting_header 16 = Some SPACE \<and> no_space (mem_of faulting_header) 4 12
   \<and> list_all (\<lambda>i'. mismatch_at (mem_of faulting_header) i') [0..<27]
   \<and> fault_at (mem_of faulting_header) 27 \<and> mem_of faulting_header 37 = None
   \<and> parse_content_length (mem_of faulting_header) 64 = 0
   \<and> events (trace_write (helpers_of ''claude'' True) 3 (mem_of faulting_header) 64 correlated_state) =
       [http_request_event (helpers_of ''claude'' True) sample_socket 3
          (''GET'' @ replicate 5 NUL) (''/v1/messages'' @ replicate 116 NUL) 0]
   \<and> mem_of faulting_digits 3 = Some SPACE \<and> no_space (mem_of faulting_digits) 0 3
   \<and> mem_of faulting_digits 16 = Some SPACE \<and> no_space (mem_of faulting_digits) 4 12
   \<and> list_all (\<lambda>i'. mismatch_at (mem_of faulting_digits) i') [0..<27]
   \<and> header_at (mem_of faulting_digits) 27
   \<and> mem_of faulting_digits 43 = Some (CHR ''4'') \<and> is_digit (CHR ''4'')
   \<and> mem_of faulting_digits 44 = None \<and> decimal_value ''4'' = 4
   \<and> parse_content_length (mem_of faulting_digits) 64 = 4
   \<and> events (trace_write (helpers_of ''claude'' True) 3 (mem_of faulting_digits) 64 correlated_state) =
       [http_request_event (helpers_of ''claude'' True) sample_socket 3
          (''GET'' @ replicate 5 NUL) (''/v1/messages'' @ replicate 116 NUL) 4]"
proof -
  let ?k = "helpers_of ''claude'' True"
  have g: "fmlookup (claude_pids correlated_state) (current_pid ?k) = Some 5000"
    "fmlookup (socket_connections correlated_state) (ucast (3 :: u64)) = Some sample_socket"
    "(16 :: u64) \<le> 64" "(64 :: u64) \<le> 512"
    by simp_all
  have e1: "mem_of ''GE'' 2 = None" "no_space (mem_of ''GE'') 0 2"
    "mem_of ''GET /v1/mes'' 3 = Some SPACE" "no_space (mem_of ''GET /v1/mes'') 0 3"
    "mem_of ''GET /v1/mes'' 11 = None" "no_space (mem_of ''GET /v1/mes'') 4 7"
    by code_simp+
  have dg: "is_digit (CHR ''4'')" "decimal_value ''4'' = 4" "list_all is_digit ''4''"
    by (simp_all add: is_digit_def decimal_value_def)
  note th = read_fault_propagation [OF g]
  have a: "fst (parse_http_method (mem_of ''GE'') 64 (replicate 8 NUL) 8) = -1
      \<and> trace_write ?k 3 (mem_of ''GE'') 64 correlated_state = correlated_state"
    using th [of "mem_of ''GE''", THEN conjunct1, rule_format, of 2] e1 by simp
  have b: "fst (parse_http_uri (mem_of ''GET /v1/mes'') 64 3 (replicate 128 NUL) 128) = -1
      \<and> trace_write ?k 3 (mem_of ''GET /v1/mes'') 64 correlated_state = correlated_state"
    using th [of "mem_of ''GET /v1/mes''", THEN conjunct2, THEN conjunct1, rule_format, of 3 7] e1
    by simp
  have mm: "\<forall>i'<27. mismatch_at (mem_of faulting_header) i'"
    "\<forall>i'<27. mismatch_at (mem_of faulting_digits) i'"
    using faulting_header_bytes(7) faulting_digits_bytes(7) by (simp_all add: list_all_iff)
  have c: "parse_content_length (mem_of faulting_header) 64 = 0
      \<and> events (trace_write ?k 3 (mem_of faulting_header) 64 correlated_state) =
       [http_request_event ?k sample_socket 3
          (''GET'' @ replicate 5 NUL) (''/v1/messages'' @ replicate 116 NUL) 0]"
    using th [of "mem_of faulting_header", THEN conjunct2, THEN conjunct2, rule_format, of 3 12,
            THEN conjunct1, rule_format, of 27]
      faulting_header_bytes mm(1) by simp
  have rd: "\<forall>j<length ''4''. mem_of faulting_digits (27 + 16 + j) = Some (''4'' ! j)"
    using faulting_digits_eval(4) by simp
  have d: "parse_content_length (mem_of faulting_digits) 64 = 4
      \<and> events (trace_write ?k 3 (mem_of faulting_digits) 64 correlated_state) =
       [http_request_event ?k sample_socket 3
          (''GET'' @ replicate 5 NUL) (''/v1/messages'' @ replicate 116 NUL) 4]"
    using th [of "mem_of faulting_digits", THEN conjunct2, THEN conjunct2, rule_format, of 3 12,
            THEN conjunct2, rule_format, of 27 "''4''"]
      faulting_digits_bytes mm(2) rd dg faulting_digits_eval(5) by simp
  show ?thesis
    using g e1 a b c d dg faulting_digits_bytes faulting_header_bytes
      faulting_digits_eval(4,5) faulting_header_eval(4) by simp
qed

text \<open>
  C4 as stated fails for the content length. Of a 64-byte write only the first 44
  bytes can be read, the last of them the digit 4 behind the header: the digit loop
  stops at the fault and the record carries the content length 4. Of another only the
  first 37 bytes can be read, ending inside the header name: the search returns 0 at
  the fault and the record carries the content length 0.
\<close>

theorem content_length_fault_emitted:
  "fmlookup (claude_pids correlated_state) (current_pid (helpers_of ''claude'' True)) = Some 5000
   \<and> fmlookup (socket_connections correlated_state) (ucast (3 :: u64)) = Some sample_socket
   \<and> (16 :: u64) \<le> 64 \<and> (64 :: u64) \<le> 512
   \<and> ringbuf_reserve (helpers_of ''claude'' True)
   \<and> header_at (mem_of faulting_digits) 27
   \<and> mem_of faulting_digits 43 = Some (CHR ''4'') \<and> mem_of faulting_digits 44 = None
   \<and> parse_content_length (mem_of faulting_digits) (uint (64 :: u64)) = 4
   \<and> events (trace_write (helpers_of ''claude'' True) 3 (mem_of faulting_digits) 64 correlated_state) =
       [http_request_event (helpers_of ''claude'' True) sample_socket 3
          (''GET'' @ replicate 5 NUL) (''/v1/messages'' @ replicate 116 NUL) 4]
   \<and> fault_at (mem_of faulting_header) 27 \<and> mem_of faulting_header 37 = None
   \<and> parse_content_length (mem_of faulting_header) (uint (64 :: u64)) = 0
   \<and> events (trace_write (helpers_of ''claude'' True) 3 (mem_of faulting_header) 64 correlated_state) =
       [http_request_event (helpers_of ''claude'' True) sample_socket 3
          (''GET'' @ replicate 5 NUL) (''/v1/messages'' @ replicate 116 NUL) 0]"
proof -
  let ?k = "helpers_of ''claude'' True"
  have v: "parse_content_length (mem_of faulting_digits) 64 = 4"
    "parse_content_length (mem_of faulting_header) 64 = 0"
    by (simp_all add: parse_content_length_def faulting_digits_eval faulting_header_eval)
  have a: "events (trace_write ?k 3 (mem_of faulting_digits) 64 correlated_state) =
       [http_request_event ?k sample_socket 3
          (''GET'' @ replicate 5 NUL) (''/v1/messages'' @ replicate 116 NUL) 4]"
    using trace_write_parsed [of correlated_state ?k 5000 3 sample_socket 64 "mem_of faulting_digits"
        3 "''GET'' @ replicate 5 NUL" 12 "''/v1/messages'' @ replicate 116 NUL"]
      faulting_digits_eval v
    by simp
  have b: "events (trace_write ?k 3 (mem_of faulting_header) 64 correlated_state) =
       [http_request_event ?k sample_socket 3
          (''GET'' @ replicate 5 NUL) (''/v1/messages'' @ replicate 116 NUL) 0]"
    using trace_write_parsed [of correlated_state ?k 5000 3 sample_socket 64 "mem_of faulting_header"
        3 "''GET'' @ replicate 5 NUL" 12 "''/v1/messages'' @ replicate 116 NUL"]
      faulting_header_eval v
    by simp
  show ?thesis
    using a b v faulting_digits_eval(4,5) faulting_header_eval(4)
      faulting_digits_bytes(8) faulting_header_bytes(8) by simp
qed

section \<open>Exec under a full ring buffer (C10)\<close>

lemma full_pid_table_dom:
  "fmdom' full_pid_table = of_nat ` {1000..<2024}"
proof -
  have "fmdom' full_pid_table = fset (fmdom full_pid_table)"
    by (simp add: fmdom'_alt_def)
  also have "\<dots> = set (map fst (map (\<lambda>p. (of_nat p :: u32, 5000 :: u64)) [1000..<2024]))"
    unfolding full_pid_table_def fmdom_fmap_of_list by (simp only: fset_of_list.rep_eq)
  also have "\<dots> = of_nat ` {1000..<2024}"
    by (simp only: set_map image_image fst_conv set_upt)
  finally show ?thesis .
qed

lemma u32_of_nat_inj_pids: "inj_on (of_nat :: nat \<Rightarrow> u32) {1000..<2024}"
proof (rule inj_onI)
  fix x y :: nat
  assume "x \<in> {1000..<2024}" "y \<in> {1000..<2024}" "(of_nat x :: u32) = of_nat y"
  then have "unat (of_nat x :: u32) = unat (of_nat y :: u32)" "x < 2 ^ 32" "y < 2 ^ 32" by auto
  then show "x = y" by (simp add: unat_of_nat)
qed

lemma full_pid_table_card: "fcard (fmdom full_pid_table) = 1024"
proof -
  have "fcard (fmdom full_pid_table) = card (fmdom' full_pid_table)"
    by (simp add: fcard.rep_eq fmdom'_alt_def)
  also have "\<dots> = 1024"
    by (simp add: full_pid_table_dom card_image [OF u32_of_nat_inj_pids])
  finally show ?thesis .
qed

lemma full_pid_table_100: "fmlookup full_pid_table 100 = None"
proof -
  have "(100 :: u32) \<notin> of_nat ` {1000..<2024}"
  proof
    assume "(100 :: u32) \<in> of_nat ` {1000..<2024}"
    then obtain n :: nat where n: "1000 \<le> n" "n < 2024" "(100 :: u32) = of_nat n" by auto
    then have "unat (100 :: u32) = unat (of_nat n :: u32)" by simp
    with n(1,2) show False by (simp add: unat_of_nat)
  qed
  then show ?thesis
    by (simp add: full_pid_table_dom [symmetric] fmdom'_notD)
qed

lemma full_pid_state_simps [simp]:
  "claude_pids full_pid_state = full_pid_table"
  "events full_pid_state = []"
  "socket_connections full_pid_state = fmempty"
  by (simp_all add: full_pid_state_def)

text \<open>
  C10, as the code has it. When the name passes the filter and the ring buffer has
  no room, the exec handler returns before it marks the process: the state changes in
  the execve-calls and dropped counters only, and the identity map is as it was. A
  process that had no entry therefore still has none, and every later connect, write
  and exit activation for its process id leaves the state as it is, until an exec for
  that id finds room in the ring buffer and in the identity map and marks it.
\<close>

theorem trace_execve_reservation_failure:
  assumes "current_task k = Some task" and "current_comm k = Some comm"
    and "is_claude_process comm" and "\<not> ringbuf_reserve k"
  shows "trace_execve k filename s =
           s\<lparr>perf_counters := (perf_counters s)
               (COUNTER_EXECVE_CALLS := perf_counters s COUNTER_EXECVE_CALLS + 1,
                COUNTER_EVENTS_DROPPED := perf_counters s COUNTER_EVENTS_DROPPED + 1)\<rparr>
         \<and> claude_pids (trace_execve k filename s) = claude_pids s
         \<and> events (trace_execve k filename s) = events s
         \<and> (fmlookup (claude_pids s) (current_pid k) = None \<longrightarrow>
              (\<forall>k' fd addr. current_pid k' = current_pid k \<longrightarrow>
                 trace_connect k' fd addr (trace_execve k filename s) = trace_execve k filename s)
            \<and> (\<forall>k' fd buf count. current_pid k' = current_pid k \<longrightarrow>
                 trace_write k' fd buf count (trace_execve k filename s) = trace_execve k filename s)
            \<and> (\<forall>k' code.
                 trace_exit k' (current_pid k) code (trace_execve k filename s) = trace_execve k filename s)
            \<and> (\<forall>k' task' comm' filename'.
                 current_pid k' = current_pid k \<and> current_task k' = Some task'
                 \<and> current_comm k' = Some comm' \<and> is_claude_process comm' \<and> ringbuf_reserve k'
                 \<and> fcard (fmdom (claude_pids s)) < claude_pids_max_entries \<longrightarrow>
                 fmlookup (claude_pids (trace_execve k' filename' (trace_execve k filename s)))
                   (current_pid k) = Some (ktime_get_ns k')))"
proof -
  let ?s' = "trace_execve k filename s"
  have eq: "?s' = s\<lparr>perf_counters := (perf_counters s)
               (COUNTER_EXECVE_CALLS := perf_counters s COUNTER_EXECVE_CALLS + 1,
                COUNTER_EVENTS_DROPPED := perf_counters s COUNTER_EVENTS_DROPPED + 1)\<rparr>"
    using assms by (rule trace_execve_dropped)
  have pids: "claude_pids ?s' = claude_pids s" and evs: "events ?s' = events s"
    by (simp_all add: eq)
  have later: "fmlookup (claude_pids (trace_execve k' filename' ?s')) (current_pid k)
                 = Some (ktime_get_ns k')"
    if "current_pid k' = current_pid k" "current_task k' = Some task'"
      "current_comm k' = Some comm'" "is_claude_process comm'" "ringbuf_reserve k'"
      "fcard (fmdom (claude_pids s)) < claude_pids_max_entries"
    for k' task' comm' filename'
    using trace_execve_marks [of k' task' comm' ?s' filename'] that by (simp add: pids)
  show ?thesis
    using eq pids evs later
    by (auto simp: trace_connect_untracked trace_write_untracked trace_exit_untracked
        simp del: fun_upd_apply)
qed

theorem trace_execve_reservation_failure_witness:
  "current_task (helpers_of ''claude'' False) =
      Some \<lparr>task_comm = read_str MAX_COMM_LEN ''claude'', real_parent_pid = 1\<rparr>
   \<and> current_comm (helpers_of ''claude'' False) = Some (read_str MAX_COMM_LEN ''claude'')
   \<and> is_claude_process (read_str MAX_COMM_LEN ''claude'')
   \<and> \<not> ringbuf_reserve (helpers_of ''claude'' False)
   \<and> fmlookup (claude_pids initial_state) (current_pid (helpers_of ''claude'' False)) = None
   \<and> claude_pids (trace_execve (helpers_of ''claude'' False) None initial_state) = fmempty
   \<and> events (trace_execve (helpers_of ''claude'' False) None initial_state) = []
   \<and> perf_counters (trace_execve (helpers_of ''claude'' False) None initial_state)
        COUNTER_EXECVE_CALLS = 1
   \<and> perf_counters (trace_execve (helpers_of ''claude'' False) None initial_state)
        COUNTER_EVENTS_DROPPED = 1
   \<and> trace_connect (helpers_of ''claude'' True) 3 (Some sample_addr)
        (trace_execve (helpers_of ''claude'' False) None initial_state)
      = trace_execve (helpers_of ''claude'' False) None initial_state
   \<and> trace_write (helpers_of ''claude'' True) 3 (mem_of http_request) 49
        (trace_execve (helpers_of ''claude'' False) None initial_state)
      = trace_execve (helpers_of ''claude'' False) None initial_state
   \<and> trace_exit (helpers_of ''claude'' True) 100 0
        (trace_execve (helpers_of ''claude'' False) None initial_state)
      = trace_execve (helpers_of ''claude'' False) None initial_state
   \<and> fmlookup (claude_pids (trace_execve (helpers_of ''claude'' True) None
        (trace_execve (helpers_of ''claude'' False) None initial_state))) 100 = Some 5000"
proof -
  let ?k = "helpers_of ''claude'' False" and ?k' = "helpers_of ''claude'' True"
  let ?s' = "trace_execve ?k None initial_state"
  note th = trace_execve_reservation_failure
    [of ?k "\<lparr>task_comm = read_str MAX_COMM_LEN ''claude'', real_parent_pid = 1\<rparr>"
        "read_str MAX_COMM_LEN ''claude''" None initial_state, simplified,
     OF is_claude_process_claude]
  have a: "claude_pids ?s' = fmempty" "events ?s' = []"
    "perf_counters ?s' COUNTER_EXECVE_CALLS = 1" "perf_counters ?s' COUNTER_EVENTS_DROPPED = 1"
    using th by simp_all
  note later = th [THEN conjunct2, THEN conjunct2, THEN conjunct2]
  have p: "current_pid ?k' = 100" by simp
  have b: "trace_connect ?k' 3 (Some sample_addr) ?s' = ?s'"
    "trace_write ?k' 3 (mem_of http_request) 49 ?s' = ?s'"
    "trace_exit ?k' 100 0 ?s' = ?s'"
    using later p by blast+
  have "fmlookup (claude_pids (trace_execve ?k' None ?s')) 100 = Some (ktime_get_ns ?k')"
    using later [THEN conjunct2, THEN conjunct2, THEN conjunct2, rule_format, of ?k' None]
      is_claude_process_claude
    by (simp add: claude_pids_max_entries_def fcard_fempty)
  then have c: "fmlookup (claude_pids (trace_execve ?k' None ?s')) 100 = Some 5000"
    by simp
  show ?thesis using a b c is_claude_process_claude by simp
qed

text \<open>
  C10 as stated fails in two ways. A process that already has an entry keeps it when
  its exec finds the ring buffer full: a later connect of process 100 is reported and
  its exit removes the entry. And a later exec that finds room in the ring buffer
  emits its record but marks nothing when the identity map is full (1024 entries):
  process 100 stays without an entry.
\<close>

theorem trace_execve_failure_not_ignored:
  "is_claude_process (read_str MAX_COMM_LEN ''claude'')
   \<and> \<not> ringbuf_reserve (helpers_of ''claude'' False)
   \<and> fmlookup (claude_pids tracked_state) (current_pid (helpers_of ''claude'' False)) = Some 5000
   \<and> fmlookup (claude_pids (trace_execve (helpers_of ''claude'' False) None tracked_state)) 100
       = Some 5000
   \<and> events (trace_connect (helpers_of ''claude'' True) 3 (Some sample_addr)
         (trace_execve (helpers_of ''claude'' False) None tracked_state)) =
       [connect_event (helpers_of ''claude'' True) 0x0100007F 443]
   \<and> fmlookup (claude_pids (trace_exit (helpers_of ''claude'' True) 100 0
         (trace_execve (helpers_of ''claude'' False) None tracked_state))) 100 = None
   \<and> fmlookup (claude_pids full_pid_state) 100 = None
   \<and> fcard (fmdom (claude_pids full_pid_state)) = 1024
   \<and> ringbuf_reserve (helpers_of ''claude'' True)
   \<and> events (trace_execve (helpers_of ''claude'' True) None
         (trace_execve (helpers_of ''claude'' False) None full_pid_state)) =
       [zero_event\<lparr>ev_timestamp := 5000, ev_pid := 100, ev_ppid := 1, ev_uid := 1000,
                    ev_event_type := event_code EVENT_EXEC,
                    ev_comm := read_str MAX_COMM_LEN ''claude''\<rparr>]
   \<and> fmlookup (claude_pids (trace_execve (helpers_of ''claude'' True) None
         (trace_execve (helpers_of ''claude'' False) None full_pid_state))) 100 = None"
proof -
  let ?k = "helpers_of ''claude'' False" and ?k' = "helpers_of ''claude'' True"
  note c = is_claude_process_claude
  have d: "trace_execve ?k None s =
     s\<lparr>perf_counters := (perf_counters s)
         (COUNTER_EXECVE_CALLS := perf_counters s COUNTER_EXECVE_CALLS + 1,
          COUNTER_EVENTS_DROPPED := perf_counters s COUNTER_EVENTS_DROPPED + 1)\<rparr>" for s
    by (rule trace_execve_dropped [OF _ _ c]) simp_all
  have 1: "fmlookup (claude_pids (trace_execve ?k None tracked_state)) 100 = Some 5000"
    by (simp add: d)
  have 2: "events (trace_connect ?k' 3 (Some sample_addr) (trace_execve ?k None tracked_state)) =
       [connect_event ?k' 0x0100007F 443]"
    using trace_connect_reserved [of "trace_execve ?k None tracked_state" ?k' 5000 sample_addr
        "0x0100007F" "0xBB01" 3]
    by (simp add: d)
  have 3: "fmlookup (claude_pids (trace_exit ?k' 100 0 (trace_execve ?k None tracked_state))) 100 = None"
    by (simp add: trace_exit_claude_pids)
  have notin: "(100 :: u32) |\<notin>| fmdom full_pid_table"
    using full_pid_table_100 by (simp add: fmdom_notI)
  have 4: "events (trace_execve ?k' None (trace_execve ?k None full_pid_state)) =
       [zero_event\<lparr>ev_timestamp := 5000, ev_pid := 100, ev_ppid := 1, ev_uid := 1000,
                    ev_event_type := event_code EVENT_EXEC,
                    ev_comm := read_str MAX_COMM_LEN ''claude''\<rparr>]"
    using c by (simp add: d) (simp add: trace_execve_def Let_def zero_event_def)
  have 5: "fmlookup (claude_pids (trace_execve ?k' None (trace_execve ?k None full_pid_state))) 100 = None"
    using c notin
    by (simp add: d)
       (simp add: trace_execve_def Let_def bpf_map_update_elem_def claude_pids_max_entries_def
          full_pid_table_card full_pid_table_100)
  show ?thesis
    using c 1 2 3 4 5 by (simp add: full_pid_table_100 full_pid_table_card)
qed

end
